theory Spec2Isabelle
  imports Complex_Main
begin

section \<open>Numbers, errors and library functions\<close>

text \<open>
  The program is \<^verbatim>\<open>Black_Scholes.py\<close>: two functions, \<^verbatim>\<open>black_scholes\<close> and
  \<^verbatim>\<open>option_payoff\<close>, and a script that evaluates both over a grid of spot prices and
  plots the two curves.

  Modelling conventions.
  \<^item> A number passed to the program is finite and is taken as the real number it
    denotes. An argument records besides which kind of number it is, a Python number
    (\<^verbatim>\<open>float\<close>, or an \<^verbatim>\<open>int\<close> such as the script's \<^verbatim>\<open>K = 100\<close>) or a numpy scalar
    (\<^verbatim>\<open>np.float64\<close>, such as the elements of the script's \<^verbatim>\<open>S\<close>): the two kinds differ
    in which operations raise.
  \<^item> A computed value is an \<open>npfloat\<close>: a real, or one of the IEEE special values that
    arise without any rounding, the negative zero, the two infinities and NaN. The special
    values follow the IEEE rules, which numpy applies (with a warning, without raising).
  \<^item> Rounding is not modelled: an operation on finite values whose real result exists
    returns that real. Neither are overflow and underflow of the operations that do not
    raise: in binary64 \<^verbatim>\<open>np.exp(x)\<close> is infinite beyond \<open>x = 709.78\<close>, here it is
    \<open>exp x\<close>. Every theorem below is about the values so computed, not about the last
    bits or the range of the binary64 results.
  \<^item> An exception is a value \<open>Inl e\<close> of the sum type \<open>error + 'a\<close>.
\<close>

datatype error = ZeroDivisionError | OverflowError | ValueError

datatype scalar = PyFloat (val: real) | is_numpy: NpFloat (val: real)

datatype npfloat = Fin real | NegZero | PosInf | NegInf | NaN

text \<open>\<open>Fin 0\<close> is the positive zero. Sign, zeros and infinities of a value that is not NaN:\<close>

fun negative :: "npfloat \<Rightarrow> bool" where
  "negative (Fin x) = (x < 0)"
| "negative NegZero = True"
| "negative PosInf = False"
| "negative NegInf = True"
| "negative NaN = False"

fun real_of :: "npfloat \<Rightarrow> real" where
  "real_of (Fin x) = x"
| "real_of NegZero = 0"
| "real_of PosInf = 0"
| "real_of NegInf = 0"
| "real_of NaN = 0"

definition is_zero :: "npfloat \<Rightarrow> bool" where
  "is_zero a \<longleftrightarrow> a = Fin 0 \<or> a = NegZero"

definition is_inf :: "npfloat \<Rightarrow> bool" where
  "is_inf a \<longleftrightarrow> a = PosInf \<or> a = NegInf"

definition zero_of :: "bool \<Rightarrow> npfloat" where
  "zero_of neg = (if neg then NegZero else Fin 0)"

definition inf_of :: "bool \<Rightarrow> npfloat" where
  "inf_of neg = (if neg then NegInf else PosInf)"

subsection \<open>Arithmetic with special values\<close>

text \<open>
  The sign of a product or quotient is the exclusive or of the signs of its operands.
  Zero times infinity, zero by zero and infinity by infinity are NaN; a non-zero number
  by zero is an infinity.
\<close>

definition np_multiply :: "npfloat \<Rightarrow> npfloat \<Rightarrow> npfloat" where
  "np_multiply a b =
     (if a = NaN \<or> b = NaN then NaN
      else if is_inf a \<or> is_inf b then
        (if is_zero a \<or> is_zero b then NaN else inf_of (negative a \<noteq> negative b))
      else if is_zero a \<or> is_zero b then zero_of (negative a \<noteq> negative b)
      else Fin (real_of a * real_of b))"

definition np_divide :: "npfloat \<Rightarrow> npfloat \<Rightarrow> npfloat" where
  "np_divide a b =
     (if a = NaN \<or> b = NaN then NaN
      else if is_inf a then (if is_inf b then NaN else inf_of (negative a \<noteq> negative b))
      else if is_inf b then zero_of (negative a \<noteq> negative b)
      else if is_zero b then (if is_zero a then NaN else inf_of (negative a \<noteq> negative b))
      else if is_zero a then zero_of (negative a \<noteq> negative b)
      else Fin (real_of a / real_of b))"

text \<open>
  A sum of infinities of opposite signs is NaN. A sum of two zeros is the negative zero
  only when both are negative; a sum of finite numbers that cancel is the positive zero.
\<close>

definition np_add :: "npfloat \<Rightarrow> npfloat \<Rightarrow> npfloat" where
  "np_add a b =
     (if a = NaN \<or> b = NaN then NaN
      else if is_inf a then (if is_inf b \<and> a \<noteq> b then NaN else a)
      else if is_inf b then b
      else if is_zero a \<and> is_zero b then zero_of (negative a \<and> negative b)
      else Fin (real_of a + real_of b))"

fun np_negative :: "npfloat \<Rightarrow> npfloat" where
  "np_negative (Fin x) = (if x = 0 then NegZero else Fin (- x))"
| "np_negative NegZero = Fin 0"
| "np_negative PosInf = NegInf"
| "np_negative NegInf = PosInf"
| "np_negative NaN = NaN"

definition np_subtract :: "npfloat \<Rightarrow> npfloat \<Rightarrow> npfloat" where
  "np_subtract a b = np_add a (np_negative b)"

text \<open>
  \<^verbatim>\<open>np.log\<close>: minus infinity at either zero, NaN below zero. \<^verbatim>\<open>np.sqrt\<close>: NaN below
  zero, and each zero is its own root. \<^verbatim>\<open>np.exp\<close>: zero at minus infinity.
\<close>

fun np_log :: "npfloat \<Rightarrow> npfloat" where
  "np_log (Fin x) = (if x = 0 then NegInf else if x < 0 then NaN else Fin (ln x))"
| "np_log NegZero = NegInf"
| "np_log PosInf = PosInf"
| "np_log NegInf = NaN"
| "np_log NaN = NaN"

fun np_sqrt :: "npfloat \<Rightarrow> npfloat" where
  "np_sqrt (Fin x) = (if x < 0 then NaN else Fin (sqrt x))"
| "np_sqrt NegZero = NegZero"
| "np_sqrt PosInf = PosInf"
| "np_sqrt NegInf = NaN"
| "np_sqrt NaN = NaN"

fun np_exp :: "npfloat \<Rightarrow> npfloat" where
  "np_exp (Fin x) = Fin (exp x)"
| "np_exp NegZero = Fin 1"
| "np_exp PosInf = PosInf"
| "np_exp NegInf = Fin 0"
| "np_exp NaN = NaN"

subsection \<open>Division and power on the arguments\<close>

text \<open>
  \<^verbatim>\<open>a / b\<close>. On two Python numbers it is Python's division, which raises
  \<^verbatim>\<open>ZeroDivisionError\<close> when \<^verbatim>\<open>b\<close> is zero. When either operand is a numpy scalar it
  is numpy's division (\<^verbatim>\<open>np.float64\<close> is a subclass of \<^verbatim>\<open>float\<close> and its operator is
  tried first on either side), which does not raise.
\<close>

definition op_truediv :: "scalar \<Rightarrow> scalar \<Rightarrow> error + npfloat" where
  "op_truediv a b =
     (if is_numpy a \<or> is_numpy b then Inr (np_divide (Fin (val a)) (Fin (val b)))
      else if val b = 0 then Inl ZeroDivisionError
      else Inr (Fin (val a / val b)))"

text \<open>
  \<^verbatim>\<open>x ** n\<close>. On a Python float it raises \<^verbatim>\<open>OverflowError\<close> when the result is too
  large for a binary64 float, that is when it would round to infinity; this is the only
  place where the range of the floats decides whether the program raises, and the only
  place where the model mentions that range. On a numpy scalar it does not raise.
\<close>

definition float_overflow_threshold :: real where
  "float_overflow_threshold = 2 ^ 1024 - 2 ^ 970"

definition op_pow :: "scalar \<Rightarrow> nat \<Rightarrow> error + real" where
  "op_pow x n =
     (if is_numpy x then Inr (val x ^ n)
      else if float_overflow_threshold \<le> \<bar>val x ^ n\<bar> then Inl OverflowError
      else Inr (val x ^ n))"

subsection \<open>The standard normal distribution function\<close>

text \<open>
  Modelled from the spec: \<^verbatim>\<open>scipy.stats.norm.cdf\<close> is a library function, not code
  of this program; the specification names it the standard normal cumulative
  distribution function. It is the distribution function of the standard normal law: the function
  \<open>\<Phi>\<close> whose derivative is proportional to \<open>exp (- x\<^sup>2 / 2)\<close>, which tends to 0 at
  \<open>-\<infinity>\<close> and to 1 at \<open>+\<infinity>\<close>. These three properties are proved below
  (\<open>DERIV_norm_cdf\<close>, \<open>norm_cdf_small\<close>, \<open>norm_cdf_large\<close>).

  \<open>gauss_int x\<close> is the integral of \<open>exp (- t\<^sup>2 / 2)\<close> from 0 to \<open>x\<close>, given by its
  power series (integrate the exponential series term by term); \<open>gauss_half_mass\<close> is
  its limit at \<open>+\<infinity>\<close>, half of the total mass of the density; \<open>norm_cdf\<close> is the
  normalised integral from \<open>-\<infinity>\<close> to \<open>x\<close>.
\<close>

definition gauss_coeff :: "nat \<Rightarrow> real" where
  "gauss_coeff m = (- 1 / 2) ^ m / (fact m * real (2 * m + 1))"

definition gauss_int :: "real \<Rightarrow> real" where
  "gauss_int x = (\<Sum>m. gauss_coeff m * x ^ (2 * m + 1))"

text \<open>The same series written as a power series in \<open>x\<close>, with every even coefficient zero.\<close>

definition gauss_pow_coeff :: "nat \<Rightarrow> real" where
  "gauss_pow_coeff n = (if even n then 0 else gauss_coeff ((n - 1) div 2))"

definition gauss_half_mass :: real where
  "gauss_half_mass = (SUP x. gauss_int x)"

definition norm_cdf :: "real \<Rightarrow> real" where
  "norm_cdf x = 1 / 2 + gauss_int x / (2 * gauss_half_mass)"

text \<open>
  \<^verbatim>\<open>norm.cdf\<close> on a computed value: 1 at plus infinity, 0 at minus infinity, NaN at NaN.
\<close>

fun norm_cdf_np :: "npfloat \<Rightarrow> npfloat" where
  "norm_cdf_np (Fin x) = Fin (norm_cdf x)"
| "norm_cdf_np NegZero = Fin (norm_cdf 0)"
| "norm_cdf_np PosInf = Fin 1"
| "norm_cdf_np NegInf = Fin 0"
| "norm_cdf_np NaN = NaN"

section \<open>The pricer\<close>

text \<open>
  \<^verbatim>\<open>black_scholes(S, K, T, r, sigma, option_type)\<close>. The source evaluates \<^verbatim>\<open>S / K\<close>
  first, then \<^verbatim>\<open>sigma ** 2\<close>; these two can raise, depending on the kind of their
  operands. Everything after them is arithmetic that does not raise, until the option
  type is examined.
\<close>

definition black_scholes ::
    "scalar \<Rightarrow> scalar \<Rightarrow> scalar \<Rightarrow> scalar \<Rightarrow> scalar \<Rightarrow> string \<Rightarrow> error + npfloat" where
  "black_scholes S K T r sigma option_type =
     (case op_truediv S K of
        Inl e \<Rightarrow> Inl e
      | Inr q \<Rightarrow>
     (case op_pow sigma 2 of
        Inl e \<Rightarrow> Inl e
      | Inr sq \<Rightarrow>
     (let d1 = np_divide
                 (np_add (np_log q) (Fin ((val r + 0.5 * sq) * val T)))
                 (np_multiply (Fin (val sigma)) (np_sqrt (Fin (val T))));
          d2 = np_subtract d1 (np_multiply (Fin (val sigma)) (np_sqrt (Fin (val T))))
      in if option_type = ''call'' then
           Inr (np_subtract
                  (np_multiply (Fin (val S)) (norm_cdf_np d1))
                  (np_multiply (np_multiply (Fin (val K)) (np_exp (Fin (- val r * val T))))
                     (norm_cdf_np d2)))
         else if option_type = ''put'' then
           Inr (np_subtract
                  (np_multiply (np_multiply (Fin (val K)) (np_exp (Fin (- val r * val T))))
                     (norm_cdf_np (np_negative d2)))
                  (np_multiply (Fin (val S)) (norm_cdf_np (np_negative d1))))
         else Inl ValueError)))"

text \<open>An omitted \<^verbatim>\<open>option_type\<close> argument takes the default of the signature.\<close>

definition black_scholes_args ::
    "scalar \<Rightarrow> scalar \<Rightarrow> scalar \<Rightarrow> scalar \<Rightarrow> scalar \<Rightarrow> string option \<Rightarrow> error + npfloat" where
  "black_scholes_args S K T r sigma option_type =
     black_scholes S K T r sigma (case option_type of None \<Rightarrow> ''call'' | Some t \<Rightarrow> t)"

section \<open>The payoff calculator\<close>

text \<open>
  \<^verbatim>\<open>option_payoff(S, K, option_type)\<close>. \<^verbatim>\<open>S\<close> is a number or a numpy vector of
  numbers, \<^verbatim>\<open>K\<close> is a number; numpy broadcasts the scalar over the vector. Subtraction
  and maximum raise for no kind of number.
\<close>

datatype ndarray = Scalar real | Array "real list"

fun nd_sub_scalar :: "ndarray \<Rightarrow> real \<Rightarrow> ndarray" where
  "nd_sub_scalar (Scalar s) k = Scalar (s - k)"
| "nd_sub_scalar (Array xs) k = Array (map (\<lambda>s. s - k) xs)"

fun scalar_sub_nd :: "real \<Rightarrow> ndarray \<Rightarrow> ndarray" where
  "scalar_sub_nd k (Scalar s) = Scalar (k - s)"
| "scalar_sub_nd k (Array xs) = Array (map (\<lambda>s. k - s) xs)"

fun np_maximum :: "ndarray \<Rightarrow> real \<Rightarrow> ndarray" where
  "np_maximum (Scalar s) c = Scalar (max s c)"
| "np_maximum (Array xs) c = Array (map (\<lambda>s. max s c) xs)"

fun elements :: "ndarray \<Rightarrow> real list" where
  "elements (Scalar s) = [s]"
| "elements (Array xs) = xs"

definition option_payoff :: "ndarray \<Rightarrow> real \<Rightarrow> string \<Rightarrow> error + ndarray" where
  "option_payoff S K option_type =
     (if option_type = ''call'' then Inr (np_maximum (nd_sub_scalar S K) 0)
      else if option_type = ''put'' then Inr (np_maximum (scalar_sub_nd K S) 0)
      else Inl ValueError)"

definition option_payoff_args :: "ndarray \<Rightarrow> real \<Rightarrow> string option \<Rightarrow> error + ndarray" where
  "option_payoff_args S K option_type =
     option_payoff S K (case option_type of None \<Rightarrow> ''call'' | Some t \<Rightarrow> t)"

section \<open>The script\<close>

text \<open>
  Modelled from the spec: \<^verbatim>\<open>np.linspace(start, stop, num)\<close> is a library function, not
  code of this program; it returns \<^verbatim>\<open>num\<close> evenly spaced numbers from \<^verbatim>\<open>start\<close> to
  \<^verbatim>\<open>stop\<close>, both included (the specification's uniformly spaced sequence between two
  bounds).
\<close>

definition np_linspace :: "real \<Rightarrow> real \<Rightarrow> nat \<Rightarrow> real list" where
  "np_linspace start stop num =
     map (\<lambda>i. start + real i * ((stop - start) / real (num - 1))) [0..<num]"

text \<open>
  What the script does besides computing is recorded as a trace of events: every call
  of the two functions with its arguments, and every curve handed to the plotting
  library with its abscissae and its ordinates (labels, colours and the rest of the
  layout are not modelled).
\<close>

datatype event =
    is_pricer_call: Call_black_scholes scalar scalar scalar scalar scalar string
  | is_payoff_call: Call_option_payoff ndarray real string
  | is_plot: Plot "real list" "npfloat list"

definition traced_black_scholes ::
    "event list \<Rightarrow> scalar \<Rightarrow> scalar \<Rightarrow> scalar \<Rightarrow> scalar \<Rightarrow> scalar \<Rightarrow> string
      \<Rightarrow> (error + npfloat) \<times> event list" where
  "traced_black_scholes tr S K T r sigma option_type =
     (black_scholes S K T r sigma option_type,
      tr @ [Call_black_scholes S K T r sigma option_type])"

definition traced_option_payoff ::
    "event list \<Rightarrow> ndarray \<Rightarrow> real \<Rightarrow> string \<Rightarrow> (error + ndarray) \<times> event list" where
  "traced_option_payoff tr S K option_type =
     (option_payoff S K option_type, tr @ [Call_option_payoff S K option_type])"

text \<open>
  The list comprehension \<^verbatim>\<open>[black_scholes(s, K, T, r, sigma, option_type) for s in S]\<close>:
  one call per element, from left to right, stopping at the first exception. The
  elements of the numpy vector \<^verbatim>\<open>S\<close> are numpy scalars.
\<close>

fun price_loop ::
    "event list \<Rightarrow> real list \<Rightarrow> scalar \<Rightarrow> scalar \<Rightarrow> scalar \<Rightarrow> scalar \<Rightarrow> string
      \<Rightarrow> (error + npfloat list) \<times> event list" where
  "price_loop tr [] K T r sigma option_type = (Inr [], tr)"
| "price_loop tr (s # ss) K T r sigma option_type =
     (case traced_black_scholes tr (NpFloat s) K T r sigma option_type of
        (Inl e, tr') \<Rightarrow> (Inl e, tr')
      | (Inr p, tr') \<Rightarrow>
          (case price_loop tr' ss K T r sigma option_type of
             (Inl e, tr'') \<Rightarrow> (Inl e, tr'')
           | (Inr ps, tr'') \<Rightarrow> (Inr (p # ps), tr'')))"

record curves =
  spots :: "real list"
  prices :: "npfloat list"
  payoffs :: ndarray

definition run_script ::
    "real list \<Rightarrow> scalar \<Rightarrow> scalar \<Rightarrow> scalar \<Rightarrow> scalar \<Rightarrow> string
      \<Rightarrow> (error + curves) \<times> event list" where
  "run_script S K T r sigma option_type =
     (case price_loop [] S K T r sigma option_type of
        (Inl e, tr) \<Rightarrow> (Inl e, tr)
      | (Inr ps, tr) \<Rightarrow>
          (case traced_option_payoff tr (Array S) (val K) option_type of
             (Inl e, tr') \<Rightarrow> (Inl e, tr')
           | (Inr pay, tr') \<Rightarrow>
               (Inr \<lparr>spots = S, prices = ps, payoffs = pay\<rparr>,
                tr' @ [Plot S ps, Plot S (map Fin (elements pay))])))"

definition driver :: "(error + curves) \<times> event list" where
  "driver =
     run_script (np_linspace 50 150 100)
       (PyFloat 100) (PyFloat 1.0) (PyFloat 0.05) (PyFloat 0.20) ''call''"

section \<open>The formulas of the specification\<close>

text \<open>
  The closed form as the specification writes it, over the reals, with \<open>\<Phi>\<close> the
  standard normal distribution function.
\<close>

definition d1_formula :: "real \<Rightarrow> real \<Rightarrow> real \<Rightarrow> real \<Rightarrow> real \<Rightarrow> real" where
  "d1_formula S K T r sigma = (ln (S / K) + (r + 0.5 * sigma\<^sup>2) * T) / (sigma * sqrt T)"

definition d2_formula :: "real \<Rightarrow> real \<Rightarrow> real \<Rightarrow> real \<Rightarrow> real \<Rightarrow> real" where
  "d2_formula S K T r sigma = d1_formula S K T r sigma - sigma * sqrt T"

definition call_formula :: "real \<Rightarrow> real \<Rightarrow> real \<Rightarrow> real \<Rightarrow> real \<Rightarrow> real" where
  "call_formula S K T r sigma =
     S * norm_cdf (d1_formula S K T r sigma)
       - K * exp (- (r * T)) * norm_cdf (d2_formula S K T r sigma)"

definition put_formula :: "real \<Rightarrow> real \<Rightarrow> real \<Rightarrow> real \<Rightarrow> real \<Rightarrow> real" where
  "put_formula S K T r sigma =
     K * exp (- (r * T)) * norm_cdf (- d2_formula S K T r sigma)
       - S * norm_cdf (- d1_formula S K T r sigma)"

text \<open>
  The inputs on which the closed form is defined over the reals: the logarithm has a
  positive argument and the divisor \<open>sigma * sqrt T\<close> is not zero; and the square of
  \<open>sigma\<close> is in the range of the floats.
\<close>

definition formula_defined :: "real \<Rightarrow> real \<Rightarrow> real \<Rightarrow> real \<Rightarrow> bool" where
  "formula_defined S K T sigma \<longleftrightarrow>
     K \<noteq> 0 \<and> 0 < S / K \<and> 0 < T \<and> sigma \<noteq> 0 \<and> sigma\<^sup>2 < float_overflow_threshold"

text \<open>
  The same closed form where the reals do not define it. The specification accepts that
  at \<open>T = 0\<close> or \<open>sigma = 0\<close> the division by zero gives an infinite or NaN \<open>d1\<close>: these
  are the formulas of the specification read with the IEEE rules for the special values,
  with \<open>\<Phi>\<close> equal to 1 at plus infinity and to 0 at minus infinity.
\<close>

definition d1_ieee :: "real \<Rightarrow> real \<Rightarrow> real \<Rightarrow> real \<Rightarrow> real \<Rightarrow> npfloat" where
  "d1_ieee S K T r sigma =
     np_divide
       (np_add (np_log (np_divide (Fin S) (Fin K))) (Fin ((r + 0.5 * sigma\<^sup>2) * T)))
       (np_multiply (Fin sigma) (np_sqrt (Fin T)))"

definition d2_ieee :: "real \<Rightarrow> real \<Rightarrow> real \<Rightarrow> real \<Rightarrow> real \<Rightarrow> npfloat" where
  "d2_ieee S K T r sigma =
     np_subtract (d1_ieee S K T r sigma) (np_multiply (Fin sigma) (np_sqrt (Fin T)))"

definition call_ieee :: "real \<Rightarrow> real \<Rightarrow> real \<Rightarrow> real \<Rightarrow> real \<Rightarrow> npfloat" where
  "call_ieee S K T r sigma =
     np_subtract
       (np_multiply (Fin S) (norm_cdf_np (d1_ieee S K T r sigma)))
       (np_multiply (np_multiply (Fin K) (np_exp (Fin (- (r * T)))))
          (norm_cdf_np (d2_ieee S K T r sigma)))"

definition put_ieee :: "real \<Rightarrow> real \<Rightarrow> real \<Rightarrow> real \<Rightarrow> real \<Rightarrow> npfloat" where
  "put_ieee S K T r sigma =
     np_subtract
       (np_multiply (np_multiply (Fin K) (np_exp (Fin (- (r * T)))))
          (norm_cdf_np (np_negative (d2_ieee S K T r sigma))))
       (np_multiply (Fin S) (norm_cdf_np (np_negative (d1_ieee S K T r sigma))))"

section \<open>The distribution function\<close>

subsection \<open>The series and its derivative\<close>

lemma gauss_power_even: "(- 1 / 2) ^ m * x ^ (2 * m) = (- (x\<^sup>2 / 2)) ^ m" for x :: real
proof -
  have "(- 1 / 2) ^ m * x ^ (2 * m) = ((- 1 / 2) * x\<^sup>2) ^ m"
    by (simp only: power_mult power_mult_distrib)
  then show ?thesis by simp
qed

lemma gauss_term_eq:
  "gauss_coeff m * x ^ (2 * m + 1) = x * ((- (x\<^sup>2 / 2)) ^ m / fact m) / real (2 * m + 1)"
proof -
  have "gauss_coeff m * x ^ (2 * m + 1) = x * ((- 1 / 2) ^ m * x ^ (2 * m) / fact m) / real (2 * m + 1)"
    by (simp add: gauss_coeff_def)
  then show ?thesis by (simp only: gauss_power_even)
qed

lemma gauss_term_summable: "summable (\<lambda>m. gauss_coeff m * x ^ (2 * m + 1))"
proof (rule summable_comparison_test')
  show "summable (\<lambda>m. \<bar>x\<bar> * (inverse (fact m) * (x\<^sup>2 / 2) ^ m))"
    by (intro summable_mult summable_exp)
  fix m :: nat
  have "norm (gauss_coeff m * x ^ (2 * m + 1)) = \<bar>x\<bar> * ((x\<^sup>2 / 2) ^ m / fact m) / real (2 * m + 1)"
    unfolding gauss_term_eq by (simp add: abs_mult power_abs)
  also have "\<dots> \<le> \<bar>x\<bar> * ((x\<^sup>2 / 2) ^ m / fact m) / 1"
    by (intro divide_left_mono mult_nonneg_nonneg) auto
  finally show "norm (gauss_coeff m * x ^ (2 * m + 1)) \<le> \<bar>x\<bar> * (inverse (fact m) * (x\<^sup>2 / 2) ^ m)"
    by (simp add: field_simps)
qed

lemma gauss_int_sums: "(\<lambda>m. gauss_coeff m * x ^ (2 * m + 1)) sums gauss_int x"
  unfolding gauss_int_def by (rule summable_sums [OF gauss_term_summable])

lemma gauss_pow_sums: "(\<lambda>n. gauss_pow_coeff n * x ^ n) sums gauss_int x"
proof -
  have "(\<lambda>n. if even n then 0 else gauss_coeff ((n - 1) div 2) * x ^ (2 * ((n - 1) div 2) + 1)) sums gauss_int x"
    by (rule sums_if' [OF gauss_int_sums])
  moreover have "(if even n then 0 else gauss_coeff ((n - 1) div 2) * x ^ (2 * ((n - 1) div 2) + 1))
      = gauss_pow_coeff n * x ^ n" for n
    by (auto simp: gauss_pow_coeff_def elim!: oddE)
  ultimately show ?thesis by simp
qed

lemma gauss_diffs_sums: "(\<lambda>n. diffs gauss_pow_coeff n * x ^ n) sums exp (- (x\<^sup>2 / 2))"
proof -
  have e: "(\<lambda>m. (- (x\<^sup>2 / 2)) ^ m /\<^sub>R fact m) sums exp (- (x\<^sup>2 / 2))"
    by (rule exp_converges)
  have z: "(\<lambda>m::nat. 0::real) sums 0" by simp
  have "(\<lambda>n. if even n then (- (x\<^sup>2 / 2)) ^ (n div 2) /\<^sub>R fact (n div 2) else 0) sums (0 + exp (- (x\<^sup>2 / 2)))"
    by (rule sums_if [OF z e])
  moreover have "(if even n then (- (x\<^sup>2 / 2)) ^ (n div 2) /\<^sub>R fact (n div 2) else 0)
      = diffs gauss_pow_coeff n * x ^ n" for n
  proof (cases "even n")
    case True
    then obtain k where k: "n = 2 * k" by (elim evenE)
    have "diffs gauss_pow_coeff n * x ^ n = real (2 * k + 1) * gauss_coeff k * x ^ (2 * k)"
      by (simp add: diffs_def gauss_pow_coeff_def k)
    also have "\<dots> = (- 1 / 2) ^ k * x ^ (2 * k) / fact k"
      by (simp add: gauss_coeff_def)
    also have "\<dots> = (- (x\<^sup>2 / 2)) ^ k / fact k"
      by (simp only: gauss_power_even)
    finally have d: "diffs gauss_pow_coeff n * x ^ n = (- (x\<^sup>2 / 2)) ^ k / fact k" .
    have "(- (x\<^sup>2 / 2)) ^ (n div 2) /\<^sub>R fact (n div 2) = (- (x\<^sup>2 / 2)) ^ k / fact k"
      unfolding k by (simp add: field_simps)
    with d True show ?thesis by simp
  next
    case False
    then show ?thesis by (simp add: diffs_def gauss_pow_coeff_def)
  qed
  ultimately show ?thesis by simp
qed

lemma DERIV_gauss_int: "DERIV gauss_int x :> exp (- (x\<^sup>2 / 2))"
proof -
  have "((\<lambda>x. \<Sum>n. gauss_pow_coeff n * x ^ n) has_field_derivative (\<Sum>n. diffs gauss_pow_coeff n * x ^ n)) (at x)"
    by (rule termdiffs_strong_converges_everywhere) (rule sums_summable [OF gauss_pow_sums])
  moreover have "(\<lambda>x. \<Sum>n. gauss_pow_coeff n * x ^ n) = gauss_int"
    using gauss_pow_sums by (auto simp: sums_iff)
  moreover have "(\<Sum>n. diffs gauss_pow_coeff n * x ^ n) = exp (- (x\<^sup>2 / 2))"
    using gauss_diffs_sums by (auto simp: sums_iff)
  ultimately show ?thesis by simp
qed

subsection \<open>Monotonicity, bounds and the total mass\<close>

lemma gauss_int_zero: "gauss_int 0 = 0"
  by (simp add: gauss_int_def)

lemma gauss_int_minus: "gauss_int (- x) = - gauss_int x"
proof -
  have "gauss_int (- x) = (\<Sum>m. - (gauss_coeff m * x ^ (2 * m + 1)))"
    by (simp add: gauss_int_def)
  also have "\<dots> = - (\<Sum>m. gauss_coeff m * x ^ (2 * m + 1))"
    by (rule suminf_minus [OF gauss_term_summable])
  finally show ?thesis by (simp add: gauss_int_def)
qed

lemma gauss_int_strict_mono: "x < y \<Longrightarrow> gauss_int x < gauss_int y"
  by (rule DERIV_pos_imp_increasing [of x y gauss_int])
     (auto intro!: exI [of _ "exp (- (t\<^sup>2 / 2))" for t] DERIV_gauss_int)

lemma gauss_int_mono: "x \<le> y \<Longrightarrow> gauss_int x \<le> gauss_int y"
  using gauss_int_strict_mono [of x y] by (cases "x = y") auto

lemma gauss_int_le_aux:
  assumes "0 \<le> x"
  shows "gauss_int x \<le> exp (1 / 2) - exp (1 / 2 - x)"
proof -
  define h where "h t = - exp (1 / 2 - t) - gauss_int t" for t
  have "h 0 \<le> h x"
  proof (rule DERIV_nonneg_imp_nondecreasing [OF assms])
    fix t :: real
    have "DERIV h t :> exp (1 / 2 - t) - exp (- (t\<^sup>2 / 2))"
      unfolding h_def by (auto intro!: derivative_eq_intros DERIV_gauss_int)
    moreover have "- (t\<^sup>2 / 2) \<le> 1 / 2 - t"
    proof -
      have "0 \<le> (t - 1)\<^sup>2" by simp
      then show ?thesis by (simp add: power2_eq_square algebra_simps)
    qed
    then have "exp (- (t\<^sup>2 / 2)) \<le> exp (1 / 2 - t)" by simp
    ultimately show "\<exists>y. DERIV h t :> y \<and> 0 \<le> y"
      by (intro exI [of _ "exp (1 / 2 - t) - exp (- (t\<^sup>2 / 2))"]) simp
  qed
  then show ?thesis by (simp add: h_def gauss_int_zero)
qed

lemma gauss_int_le: "gauss_int x \<le> exp (1 / 2)"
proof (cases "0 \<le> x")
  case True
  have "gauss_int x \<le> exp (1 / 2) - exp (1 / 2 - x)" by (rule gauss_int_le_aux [OF True])
  also have "\<dots> \<le> exp (1 / 2)" by simp
  finally show ?thesis .
next
  case False
  then have "gauss_int x \<le> gauss_int 0" by (intro gauss_int_mono) simp
  also have "\<dots> \<le> exp (1 / 2)" by (simp add: gauss_int_zero)
  finally show ?thesis .
qed

lemma gauss_int_bdd: "bdd_above (range gauss_int)"
  by (rule bdd_aboveI [of _ "exp (1 / 2)"]) (auto intro: gauss_int_le)

lemma gauss_int_le_mass: "gauss_int x \<le> gauss_half_mass"
  unfolding gauss_half_mass_def by (rule cSUP_upper [OF _ gauss_int_bdd]) simp

lemma gauss_int_less_mass: "gauss_int x < gauss_half_mass"
proof -
  have "gauss_int x < gauss_int (x + 1)" by (rule gauss_int_strict_mono) simp
  also have "\<dots> \<le> gauss_half_mass" by (rule gauss_int_le_mass)
  finally show ?thesis .
qed

lemma gauss_half_mass_pos: "0 < gauss_half_mass"
  using gauss_int_less_mass [of 0] by (simp add: gauss_int_zero)

lemma gauss_int_approaches_mass:
  assumes "y < gauss_half_mass"
  shows "\<exists>x. y < gauss_int x"
proof -
  have "y < (SUP x\<in>UNIV. gauss_int x)" using assms by (simp add: gauss_half_mass_def)
  then have "\<exists>x\<in>UNIV. y < gauss_int x"
    by (subst (asm) less_cSUP_iff [OF _ gauss_int_bdd]) auto
  then show ?thesis by simp
qed

lemma norm_cdf_minus: "norm_cdf (- x) = 1 - norm_cdf x"
  by (simp add: norm_cdf_def gauss_int_minus)

lemma norm_cdf_pos: "0 < norm_cdf x"
proof -
  have "- gauss_half_mass < gauss_int x"
    using gauss_int_less_mass [of "- x"] by (simp add: gauss_int_minus)
  then have "- 1 < gauss_int x / gauss_half_mass"
    using gauss_half_mass_pos by (simp add: field_simps)
  then show ?thesis by (simp add: norm_cdf_def)
qed

lemma norm_cdf_less_one: "norm_cdf x < 1"
  using norm_cdf_pos [of "- x"] by (simp add: norm_cdf_minus)

lemma norm_cdf_zero: "norm_cdf 0 = 1 / 2"
  by (simp add: norm_cdf_def gauss_int_zero)

lemma DERIV_norm_cdf: "DERIV norm_cdf x :> exp (- (x\<^sup>2 / 2)) / (2 * gauss_half_mass)"
  unfolding norm_cdf_def using gauss_half_mass_pos
  by (auto intro!: derivative_eq_intros DERIV_gauss_int)

lemma norm_cdf_mono: "x \<le> y \<Longrightarrow> norm_cdf x \<le> norm_cdf y"
  using gauss_int_mono [of x y] gauss_half_mass_pos
  by (simp add: norm_cdf_def divide_right_mono)

lemma norm_cdf_small:
  assumes "0 < e"
  shows "\<exists>y\<le>x. norm_cdf y < e"
proof -
  have "gauss_half_mass - 2 * gauss_half_mass * e < gauss_half_mass"
    using assms gauss_half_mass_pos by simp
  then obtain z where z: "gauss_half_mass - 2 * gauss_half_mass * e < gauss_int z"
    using gauss_int_approaches_mass by blast
  define y where "y = min x (- z)"
  have "gauss_int z \<le> gauss_int (- y)" by (rule gauss_int_mono) (simp add: y_def)
  with z have "gauss_half_mass - 2 * gauss_half_mass * e < - gauss_int y"
    by (simp add: gauss_int_minus)
  then have "gauss_half_mass + gauss_int y < e * (2 * gauss_half_mass)" by (simp add: algebra_simps)
  then have "(gauss_half_mass + gauss_int y) / (2 * gauss_half_mass) < e"
    using gauss_half_mass_pos by (simp add: pos_divide_less_eq)
  moreover have "norm_cdf y = (gauss_half_mass + gauss_int y) / (2 * gauss_half_mass)"
    using gauss_half_mass_pos by (simp add: norm_cdf_def field_simps)
  ultimately have "norm_cdf y < e" by simp
  moreover have "y \<le> x" by (simp add: y_def)
  ultimately show ?thesis by blast
qed

lemma norm_cdf_large:
  assumes "0 < e"
  shows "\<exists>y\<ge>x. 1 - e < norm_cdf y"
proof -
  obtain z where z: "z \<le> - x" "norm_cdf z < e"
    using norm_cdf_small [OF assms] by blast
  have "1 - e < norm_cdf (- z)" using z(2) by (simp add: norm_cdf_minus)
  moreover have "x \<le> - z" using z(1) by simp
  ultimately show ?thesis by blast
qed

text \<open>
  The inequality behind the no-arbitrage bounds: the difference of the two sides has a
  non-negative derivative and tends to 0 at \<open>-\<infinity>\<close>.
\<close>

lemma norm_cdf_shift:
  assumes "0 \<le> a"
  shows "norm_cdf x \<le> exp (a * x + a\<^sup>2 / 2) * norm_cdf (x + a)"
proof (rule ccontr)
  assume "\<not> ?thesis"
  define g where "g t = exp (a * t + a\<^sup>2 / 2) * norm_cdf (t + a) - norm_cdf t" for t
  from \<open>\<not> ?thesis\<close> have neg: "0 < - g x" by (simp add: g_def)
  obtain y where y: "y \<le> x" "norm_cdf y < - g x"
    using norm_cdf_small [OF neg] by blast
  have "g y \<le> g x"
  proof (rule DERIV_nonneg_imp_nondecreasing [OF y(1)])
    fix t :: real
    have e: "exp (a * t + a\<^sup>2 / 2) * exp (- ((t + a)\<^sup>2 / 2)) = exp (- (t\<^sup>2 / 2))"
      by (simp add: power2_eq_square algebra_simps flip: exp_add)
    have e': "exp (a * t + a\<^sup>2 / 2) * (exp (- ((t + a)\<^sup>2 / 2)) / (2 * gauss_half_mass))
        = exp (- (t\<^sup>2 / 2)) / (2 * gauss_half_mass)"
      using e by simp
    have d1: "DERIV (\<lambda>t. exp (a * t + a\<^sup>2 / 2)) t :> a * exp (a * t + a\<^sup>2 / 2)"
      by (auto intro!: derivative_eq_intros)
    have d2: "DERIV (\<lambda>t. norm_cdf (t + a)) t :> exp (- ((t + a)\<^sup>2 / 2)) / (2 * gauss_half_mass)"
      using DERIV_norm_cdf [of "t + a"] by (simp only: DERIV_shift)
    have "DERIV g t :> a * exp (a * t + a\<^sup>2 / 2) * norm_cdf (t + a)
        + exp (- ((t + a)\<^sup>2 / 2)) / (2 * gauss_half_mass) * exp (a * t + a\<^sup>2 / 2)
        - exp (- (t\<^sup>2 / 2)) / (2 * gauss_half_mass)"
      unfolding g_def by (rule DERIV_diff [OF DERIV_mult [OF d1 d2] DERIV_norm_cdf])
    moreover have "a * exp (a * t + a\<^sup>2 / 2) * norm_cdf (t + a)
        + exp (- ((t + a)\<^sup>2 / 2)) / (2 * gauss_half_mass) * exp (a * t + a\<^sup>2 / 2)
        - exp (- (t\<^sup>2 / 2)) / (2 * gauss_half_mass) = a * exp (a * t + a\<^sup>2 / 2) * norm_cdf (t + a)"
      using e' by (simp add: mult.commute)
    ultimately have "DERIV g t :> a * exp (a * t + a\<^sup>2 / 2) * norm_cdf (t + a)"
      by (simp only:)
    moreover have "0 \<le> a * exp (a * t + a\<^sup>2 / 2) * norm_cdf (t + a)"
      using assms norm_cdf_pos [of "t + a"] by (intro mult_nonneg_nonneg) auto
    ultimately show "\<exists>d. DERIV g t :> d \<and> 0 \<le> d" by blast
  qed
  moreover have "- norm_cdf y \<le> g y"
    using norm_cdf_pos [of "y + a"] by (simp add: g_def)
  ultimately show False using y(2) by simp
qed

subsection \<open>Enclosures of the series and numerical bounds\<close>

lemma half_power_sign: "(- 1 / 2 :: real) ^ m = (- 1) ^ m * (1 / 2) ^ m"
proof -
  have "(- 1 / 2 :: real) = (- 1) * (1 / 2)" by simp
  then show ?thesis by (simp only: power_mult_distrib)
qed

lemma gauss_term_sign:
  fixes x :: real
  assumes "0 \<le> x"
  shows "gauss_coeff m * x ^ (2 * m + 1) = (- 1) ^ m * \<bar>gauss_coeff m * x ^ (2 * m + 1)\<bar>"
proof -
  define c where "c = (1 / 2) ^ m / (fact m * real (2 * m + 1)) * x ^ (2 * m + 1)"
  have c: "0 \<le> c" unfolding c_def using assms by (intro mult_nonneg_nonneg divide_nonneg_nonneg) auto
  have e: "gauss_coeff m * x ^ (2 * m + 1) = (- 1) ^ m * c"
    unfolding gauss_coeff_def c_def half_power_sign by simp
  have "\<bar>(- 1) ^ m * c\<bar> = c"
    using c by (simp add: abs_mult power_abs)
  then show ?thesis by (simp only: e)
qed

lemma gauss_term_abs:
  fixes x :: real
  assumes "0 \<le> x"
  shows "\<bar>gauss_coeff m * x ^ (2 * m + 1)\<bar> = x ^ (2 * m + 1) / (2 ^ m * fact m) / real (2 * m + 1)"
proof -
  have "\<bar>gauss_coeff m\<bar> = (1 / 2) ^ m / (fact m * real (2 * m + 1))"
    unfolding gauss_coeff_def half_power_sign by (simp add: abs_mult power_abs)
  moreover have "\<bar>x ^ (2 * m + 1)\<bar> = x ^ (2 * m + 1)" using assms by simp
  ultimately have "\<bar>gauss_coeff m * x ^ (2 * m + 1)\<bar>
      = (1 / 2) ^ m / (fact m * real (2 * m + 1)) * x ^ (2 * m + 1)"
    by (simp only: abs_mult)
  also have "\<dots> = x ^ (2 * m + 1) / (2 ^ m * fact m) / real (2 * m + 1)"
    by (simp add: power_divide)
  finally show ?thesis .
qed

lemma gauss_term_decreasing:
  fixes x :: real
  assumes "0 \<le> x" "x\<^sup>2 \<le> 2 * real (n + 1)"
  shows "\<bar>gauss_coeff (Suc n) * x ^ (2 * Suc n + 1)\<bar> \<le> \<bar>gauss_coeff n * x ^ (2 * n + 1)\<bar>"
proof -
  define c where "c = x ^ (2 * n + 1) / (2 ^ n * fact n)"
  have c: "0 \<le> c" using assms by (simp add: c_def)
  have a: "\<bar>gauss_coeff n * x ^ (2 * n + 1)\<bar> = c / real (2 * n + 1)"
    unfolding c_def by (rule gauss_term_abs [OF assms(1)])
  have p: "x ^ (2 * Suc n + 1) = x ^ (2 * n + 1) * x\<^sup>2"
    by (simp add: power2_eq_square)
  have "\<bar>gauss_coeff (Suc n) * x ^ (2 * Suc n + 1)\<bar>
      = x ^ (2 * Suc n + 1) / (2 ^ Suc n * fact (Suc n)) / real (2 * Suc n + 1)"
    by (rule gauss_term_abs [OF assms(1)])
  also have "\<dots> = c * (x\<^sup>2 / (2 * real (n + 1))) / real (2 * n + 3)"
    unfolding p c_def by (simp add: algebra_simps)
  also have "\<dots> \<le> c * 1 / real (2 * n + 3)"
    using assms c by (intro divide_right_mono mult_left_mono) (auto simp: field_simps)
  also have "\<dots> \<le> c / real (2 * n + 1)"
    using c by (simp add: frac_le)
  finally show ?thesis by (simp only: a)
qed

lemma gauss_int_bracket:
  fixes x :: real
  assumes "0 \<le> x" "x\<^sup>2 \<le> 2 * real (2 * k + 1)"
  shows "(\<Sum>m<2 * k. gauss_coeff m * x ^ (2 * m + 1)) \<le> gauss_int x"
    and "gauss_int x \<le> (\<Sum>m<2 * k + 1. gauss_coeff m * x ^ (2 * m + 1))"
proof -
  define t where "t = (\<lambda>m. gauss_coeff m * x ^ (2 * m + 1))"
  define a where "a = (\<lambda>i. \<bar>t (i + 2 * k)\<bar>)"
  have sm: "summable t" unfolding t_def by (rule gauss_term_summable)
  have G: "gauss_int x = suminf t" by (simp add: gauss_int_def t_def)
  have "t \<longlonglongrightarrow> 0" by (rule summable_LIMSEQ_zero [OF sm])
  then have "(\<lambda>m. \<bar>t m\<bar>) \<longlonglongrightarrow> 0" by (simp add: tendsto_rabs_zero_iff)
  then have a0: "a \<longlonglongrightarrow> 0"
    unfolding a_def by (rule LIMSEQ_ignore_initial_segment)
  have apos: "0 \<le> a i" for i by (simp add: a_def)
  have amono: "a (Suc i) \<le> a i" for i
  proof -
    have "x\<^sup>2 \<le> 2 * real (i + 2 * k + 1)" using assms(2) by simp
    from gauss_term_decreasing [OF assms(1) this] show ?thesis
      by (simp add: a_def t_def)
  qed
  have sign: "(- 1) ^ i * a i = t (i + 2 * k)" for i
  proof -
    have "t (i + 2 * k) = (- 1) ^ (i + 2 * k) * \<bar>t (i + 2 * k)\<bar>"
      unfolding t_def by (rule gauss_term_sign [OF assms(1)])
    then show ?thesis by (simp add: a_def power_add power_mult)
  qed
  have tail: "(\<Sum>i. (- 1) ^ i * a i) = gauss_int x - (\<Sum>m<2 * k. t m)"
  proof -
    have "(\<Sum>i. (- 1) ^ i * a i) = (\<Sum>i. t (i + 2 * k))" by (simp only: sign)
    also have "\<dots> = suminf t - (\<Sum>m<2 * k. t m)"
      by (rule suminf_minus_initial_segment [OF sm])
    finally show ?thesis by (simp only: G)
  qed
  have "(\<Sum>i<2 * 0. (- 1) ^ i * a i) \<le> (\<Sum>i. (- 1) ^ i * a i)"
    by (rule summable_Leibniz'(2) [OF a0 apos amono])
  then have "(\<Sum>m<2 * k. t m) \<le> gauss_int x"
    by (simp add: tail)
  then show "(\<Sum>m<2 * k. gauss_coeff m * x ^ (2 * m + 1)) \<le> gauss_int x"
    by (simp only: t_def)
  have "(\<Sum>i. (- 1) ^ i * a i) \<le> (\<Sum>i<2 * 0 + 1. (- 1) ^ i * a i)"
    by (rule summable_Leibniz'(4) [OF a0 apos amono])
  then have "gauss_int x - (\<Sum>m<2 * k. t m) \<le> t (2 * k)"
    using sign [of 0] by (simp add: tail)
  then have "gauss_int x \<le> (\<Sum>m<2 * k + 1. t m)"
    by simp
  then show "gauss_int x \<le> (\<Sum>m<2 * k + 1. gauss_coeff m * x ^ (2 * m + 1))"
    by (simp only: t_def)
qed

lemma gauss_int_tail:
  assumes "0 < c"
  shows "gauss_int x \<le> gauss_int c + exp (- (c\<^sup>2 / 2)) / c"
proof (cases "c \<le> x")
  case True
  define h where "h t = - exp (- (t\<^sup>2 / 2)) / c - gauss_int t" for t
  have "h c \<le> h x"
  proof (rule DERIV_nonneg_imp_nondecreasing [OF True])
    fix t :: real
    assume t: "c \<le> t"
    have "DERIV h t :> t * exp (- (t\<^sup>2 / 2)) / c - exp (- (t\<^sup>2 / 2))"
      unfolding h_def using assms
      by (auto intro!: derivative_eq_intros DERIV_gauss_int)
    moreover have "exp (- (t\<^sup>2 / 2)) * 1 \<le> exp (- (t\<^sup>2 / 2)) * (t / c)"
      using t assms by (intro mult_left_mono) auto
    then have "0 \<le> t * exp (- (t\<^sup>2 / 2)) / c - exp (- (t\<^sup>2 / 2))"
      by (simp add: mult.commute)
    ultimately show "\<exists>y. DERIV h t :> y \<and> 0 \<le> y" by blast
  qed
  then have "gauss_int x \<le> gauss_int c + (exp (- (c\<^sup>2 / 2)) / c - exp (- (x\<^sup>2 / 2)) / c)"
    by (simp add: h_def)
  also have "\<dots> \<le> gauss_int c + exp (- (c\<^sup>2 / 2)) / c"
    using assms by simp
  finally show ?thesis .
next
  case False
  then have "gauss_int x \<le> gauss_int c" by (intro gauss_int_mono) simp
  also have "\<dots> \<le> gauss_int c + exp (- (c\<^sup>2 / 2)) / c" using assms by simp
  finally show ?thesis .
qed

lemma gauss_half_mass_le:
  assumes "0 < c"
  shows "gauss_half_mass \<le> gauss_int c + exp (- (c\<^sup>2 / 2)) / c"
  unfolding gauss_half_mass_def
  by (rule cSUP_least) (auto intro: gauss_int_tail [OF assms])

lemma exp_8_lower: "(2900 :: real) \<le> exp 8"
proof -
  have "(145 / 128 :: real) \<le> exp (1 / 8)"
    using exp_lower_Taylor_quadratic [of "1 / 8 :: real"] by (simp add: power2_eq_square)
  then have "(145 / 128 :: real) ^ 64 \<le> exp (1 / 8) ^ 64"
    by (intro power_mono) auto
  also have "exp (1 / 8 :: real) ^ 64 = exp (of_nat 64 * (1 / 8))"
    by (rule exp_of_nat_mult [symmetric])
  also have "\<dots> = exp 8" by simp
  finally show ?thesis by (simp add: power_divide)
qed

lemma gauss_half_mass_lower: "125323 / 100000 \<le> gauss_half_mass"
proof -
  have "(125323 / 100000 :: real) \<le> (\<Sum>m<2 * 14. gauss_coeff m * 4 ^ (2 * m + 1))"
    by (simp add: gauss_coeff_def eval_nat_numeral)
  also have "\<dots> \<le> gauss_int 4"
    by (rule gauss_int_bracket(1)) simp_all
  also have "\<dots> \<le> gauss_half_mass" by (rule gauss_int_le_mass)
  finally show ?thesis .
qed

lemma gauss_half_mass_upper: "gauss_half_mass \<le> 125333 / 100000"
proof -
  have "exp (- 8 :: real) \<le> 1 / 2900"
    using exp_8_lower by (simp add: exp_minus field_simps)
  then have e: "exp (- (4\<^sup>2 / 2) :: real) / 4 \<le> 1 / 11600" by simp
  have "gauss_half_mass \<le> gauss_int 4 + exp (- (4\<^sup>2 / 2)) / 4"
    by (rule gauss_half_mass_le) simp
  also have "gauss_int 4 \<le> (\<Sum>m<2 * 14 + 1. gauss_coeff m * 4 ^ (2 * m + 1))"
    by (rule gauss_int_bracket(2)) simp_all
  also note e
  also have "(\<Sum>m<2 * 14 + 1. gauss_coeff m * 4 ^ (2 * m + 1)) + 1 / 11600 \<le> (125333 / 100000 :: real)"
    by (simp add: gauss_coeff_def eval_nat_numeral)
  finally show ?thesis by simp
qed

lemma gauss_int_35: "3429835 / 10000000 \<le> gauss_int (7 / 20)" "gauss_int (7 / 20) \<le> 3429836 / 10000000"
proof -
  have "(3429835 / 10000000 :: real) \<le> (\<Sum>m<2 * 2. gauss_coeff m * (7 / 20) ^ (2 * m + 1))"
    by (simp add: gauss_coeff_def eval_nat_numeral)
  also have "\<dots> \<le> gauss_int (7 / 20)"
    by (rule gauss_int_bracket(1)) (simp_all add: power2_eq_square)
  finally show "3429835 / 10000000 \<le> gauss_int (7 / 20)" .
  have "gauss_int (7 / 20) \<le> (\<Sum>m<2 * 2 + 1. gauss_coeff m * (7 / 20) ^ (2 * m + 1))"
    by (rule gauss_int_bracket(2)) (simp_all add: power2_eq_square)
  also have "\<dots> \<le> (3429836 / 10000000 :: real)"
    by (simp add: gauss_coeff_def eval_nat_numeral)
  finally show "gauss_int (7 / 20) \<le> 3429836 / 10000000" .
qed

lemma gauss_int_15: "1494393 / 10000000 \<le> gauss_int (3 / 20)" "gauss_int (3 / 20) \<le> 1494394 / 10000000"
proof -
  have "(1494393 / 10000000 :: real) \<le> (\<Sum>m<2 * 2. gauss_coeff m * (3 / 20) ^ (2 * m + 1))"
    by (simp add: gauss_coeff_def eval_nat_numeral)
  also have "\<dots> \<le> gauss_int (3 / 20)"
    by (rule gauss_int_bracket(1)) (simp_all add: power2_eq_square)
  finally show "1494393 / 10000000 \<le> gauss_int (3 / 20)" .
  have "gauss_int (3 / 20) \<le> (\<Sum>m<2 * 2 + 1. gauss_coeff m * (3 / 20) ^ (2 * m + 1))"
    by (rule gauss_int_bracket(2)) (simp_all add: power2_eq_square)
  also have "\<dots> \<le> (1494394 / 10000000 :: real)"
    by (simp add: gauss_coeff_def eval_nat_numeral)
  finally show "gauss_int (3 / 20) \<le> 1494394 / 10000000" .
qed

lemma exp_discount: "9512291 / 10000000 \<le> exp (- (1 / 20) :: real)" "exp (- (1 / 20) :: real) \<le> 9512297 / 10000000"
proof -
  obtain t :: real where t: "\<bar>t\<bar> \<le> \<bar>- (1 / 20)\<bar>"
      "exp (- (1 / 20)) = (\<Sum>m<4. (- (1 / 20)) ^ m / fact m) + exp t / fact 4 * (- (1 / 20)) ^ 4"
    using Maclaurin_exp_le [of "- (1 / 20)" 4] by blast
  have s: "(\<Sum>m<4. (- (1 / 20 :: real)) ^ m / fact m) = 45659 / 48000"
    by (simp add: eval_nat_numeral)
  have r: "exp t / fact 4 * (- (1 / 20)) ^ 4 = exp t / 3840000"
    by (simp add: eval_nat_numeral)
  have "norm t \<le> 1 / 2" using t(1) by simp
  then have "norm (exp t) \<le> 2" by (rule exp_bound_half)
  then have u: "exp t \<le> 2" by simp
  define y where "y = exp t / 3840000"
  have l: "0 \<le> y" by (simp add: y_def)
  have u': "y \<le> 2 / 3840000" unfolding y_def using u by (intro divide_right_mono) auto
  have e: "exp (- (1 / 20) :: real) = 45659 / 48000 + y"
    using t(2) by (simp only: s r y_def)
  show "9512291 / 10000000 \<le> exp (- (1 / 20) :: real)" unfolding e using l by linarith
  show "exp (- (1 / 20) :: real) \<le> 9512297 / 10000000" unfolding e using u' by linarith
qed

subsection \<open>The normalising constant\<close>

text \<open>
  The textbook density of the standard normal law is \<open>exp (- x\<^sup>2 / 2) / sqrt (2 * pi)\<close>:
  the total mass \<open>2 * gauss_half_mass\<close> is classically \<open>sqrt (2 * pi)\<close>. Nothing below
  depends on that identity; as a check of the definition, the enclosure of
  \<open>gauss_half_mass\<close> obtained above agrees with \<open>sqrt (pi / 2)\<close> to four decimal places.
\<close>

lemma arctan_bracket:
  fixes x :: real
  assumes "0 \<le> x" "x \<le> 1"
  shows "(\<Sum>k<2 * n. (- 1) ^ k * (1 / real (k * 2 + 1) * x ^ (k * 2 + 1))) \<le> arctan x"
    and "arctan x \<le> (\<Sum>k<2 * n + 1. (- 1) ^ k * (1 / real (k * 2 + 1) * x ^ (k * 2 + 1)))"
proof -
  define a where "a = (\<lambda>k. 1 / real (k * 2 + 1) * x ^ (k * 2 + 1))"
  have ax: "\<bar>x\<bar> \<le> 1" using assms by simp
  have a0: "a \<longlonglongrightarrow> 0" unfolding a_def by (rule zeroseq_arctan_series [OF ax])
  have apos: "0 \<le> a k" for k using assms by (simp add: a_def)
  have amono: "a (Suc k) \<le> a k" for k
  proof -
    have "x ^ (Suc k * 2 + 1) = x ^ (k * 2 + 1) * x\<^sup>2"
      by (simp add: power2_eq_square)
    also have "\<dots> \<le> x ^ (k * 2 + 1) * 1"
      using assms by (intro mult_left_mono) (auto simp: power_le_one)
    finally have p: "x ^ (Suc k * 2 + 1) \<le> x ^ (k * 2 + 1)" by simp
    have "a (Suc k) = x ^ (Suc k * 2 + 1) / real (Suc k * 2 + 1)" by (simp add: a_def)
    also have "\<dots> \<le> x ^ (k * 2 + 1) / real (k * 2 + 1)"
      using p assms by (intro frac_le) auto
    finally show ?thesis by (simp add: a_def)
  qed
  have s: "arctan x = (\<Sum>k. (- 1) ^ k * a k)"
    unfolding a_def by (rule arctan_series [OF ax])
  show "(\<Sum>k<2 * n. (- 1) ^ k * (1 / real (k * 2 + 1) * x ^ (k * 2 + 1))) \<le> arctan x"
    unfolding s using summable_Leibniz'(2) [OF a0 apos amono, of n] by (simp add: a_def)
  show "arctan x \<le> (\<Sum>k<2 * n + 1. (- 1) ^ k * (1 / real (k * 2 + 1) * x ^ (k * 2 + 1)))"
    unfolding s using summable_Leibniz'(4) [OF a0 apos amono, of n] by (simp add: a_def)
qed

lemma pi_enclosure: "314159 / 100000 \<le> pi" "pi \<le> 314160 / 100000"
proof -
  have l5: "(1973955 / 10000000 :: real) \<le> arctan (1 / 5)"
  proof -
    have "(1973955 / 10000000 :: real) \<le> (\<Sum>k<2 * 2. (- 1) ^ k * (1 / real (k * 2 + 1) * (1 / 5) ^ (k * 2 + 1)))"
      by (simp add: eval_nat_numeral)
    also have "\<dots> \<le> arctan (1 / 5)" by (rule arctan_bracket(1)) simp_all
    finally show ?thesis .
  qed
  have u5: "arctan (1 / 5) \<le> (1973956 / 10000000 :: real)"
  proof -
    have "arctan (1 / 5) \<le> (\<Sum>k<2 * 2 + 1. (- 1) ^ k * (1 / real (k * 2 + 1) * (1 / 5 :: real) ^ (k * 2 + 1)))"
      by (rule arctan_bracket(2)) simp_all
    also have "\<dots> \<le> 1973956 / 10000000" by (simp add: eval_nat_numeral)
    finally show ?thesis .
  qed
  have l239: "(41840 / 10000000 :: real) \<le> arctan (1 / 239)"
  proof -
    have "(41840 / 10000000 :: real) \<le> (\<Sum>k<2 * 1. (- 1) ^ k * (1 / real (k * 2 + 1) * (1 / 239) ^ (k * 2 + 1)))"
      by (simp add: eval_nat_numeral)
    also have "\<dots> \<le> arctan (1 / 239)" by (rule arctan_bracket(1)) simp_all
    finally show ?thesis .
  qed
  have u239: "arctan (1 / 239) \<le> (41842 / 10000000 :: real)"
  proof -
    have "arctan (1 / 239) \<le> (\<Sum>k<2 * 0 + 1. (- 1) ^ k * (1 / real (k * 2 + 1) * (1 / 239 :: real) ^ (k * 2 + 1)))"
      by (rule arctan_bracket(2)) simp_all
    also have "\<dots> \<le> 41842 / 10000000" by (simp add: eval_nat_numeral)
    finally show ?thesis .
  qed
  have m: "pi = 16 * arctan (1 / 5) - 4 * arctan (1 / 239)"
    using machin by simp
  show "314159 / 100000 \<le> pi" unfolding m using l5 u239 by linarith
  show "pi \<le> 314160 / 100000" unfolding m using u5 l239 by linarith
qed

lemma gauss_half_mass_classical: "\<bar>gauss_half_mass - sqrt (pi / 2)\<bar> \<le> 1 / 10000"
proof -
  have "(125331 / 100000)\<^sup>2 \<le> pi / 2"
    using pi_enclosure(1) by (simp add: power2_eq_square)
  then have l: "125331 / 100000 \<le> sqrt (pi / 2)"
    by (rule real_le_rsqrt)
  have "pi / 2 \<le> (125332 / 100000)\<^sup>2"
    using pi_enclosure(2) by (simp add: power2_eq_square)
  then have u: "sqrt (pi / 2) \<le> 125332 / 100000"
    by (intro real_le_lsqrt) auto
  from l u gauss_half_mass_lower gauss_half_mass_upper show ?thesis by linarith
qed

section \<open>The pricer and the closed form\<close>

subsection \<open>Arithmetic on finite values\<close>

lemma np_add_Fin: "np_add (Fin a) (Fin b) = Fin (a + b)"
  by (simp add: np_add_def is_inf_def is_zero_def zero_of_def)

lemma np_subtract_Fin: "np_subtract (Fin a) (Fin b) = Fin (a - b)"
  by (simp add: np_subtract_def np_add_def is_inf_def is_zero_def zero_of_def)

lemma np_multiply_Fin: "a \<noteq> 0 \<Longrightarrow> b \<noteq> 0 \<Longrightarrow> np_multiply (Fin a) (Fin b) = Fin (a * b)"
  by (simp add: np_multiply_def is_inf_def is_zero_def)

lemma np_divide_Fin: "a \<noteq> 0 \<Longrightarrow> b \<noteq> 0 \<Longrightarrow> np_divide (Fin a) (Fin b) = Fin (a / b)"
  by (simp add: np_divide_def is_inf_def is_zero_def)

lemma np_log_quotient: "K \<noteq> 0 \<Longrightarrow> np_log (np_divide (Fin S) (Fin K)) = np_log (Fin (S / K))"
  by (cases "S = 0") (simp_all add: np_divide_def is_inf_def is_zero_def zero_of_def)

text \<open>
  A quotient with a zero numerator may be the negative zero; \<open>\<Phi>\<close> and the subtraction
  that follow do not see the sign.
\<close>

lemma cdf_quotient:
  "b \<noteq> 0 \<Longrightarrow> norm_cdf_np (np_divide (Fin a) (Fin b)) = Fin (norm_cdf (a / b))"
  by (cases "a = 0") (simp_all add: np_divide_def is_inf_def is_zero_def zero_of_def)

lemma cdf_negative_quotient:
  "b \<noteq> 0 \<Longrightarrow> norm_cdf_np (np_negative (np_divide (Fin a) (Fin b))) = Fin (norm_cdf (- (a / b)))"
  by (cases "a = 0") (simp_all add: np_divide_def is_inf_def is_zero_def zero_of_def)

lemma quotient_minus:
  "b \<noteq> 0 \<Longrightarrow> c \<noteq> 0 \<Longrightarrow> np_subtract (np_divide (Fin a) (Fin b)) (Fin c) = Fin (a / b - c)"
  by (cases "a = 0")
    (simp_all add: np_divide_def np_subtract_def np_add_def is_inf_def is_zero_def zero_of_def)

subsection \<open>The pricer computes the closed form unless it raises first\<close>

lemma black_scholes_unraised:
  assumes "is_numpy S \<or> is_numpy K \<or> val K \<noteq> 0"
    and "is_numpy sigma \<or> (val sigma)\<^sup>2 < float_overflow_threshold"
  shows "black_scholes S K T r sigma option_type =
     (if option_type = ''call''
      then Inr (call_ieee (val S) (val K) (val T) (val r) (val sigma))
      else if option_type = ''put''
      then Inr (put_ieee (val S) (val K) (val T) (val r) (val sigma))
      else Inl ValueError)"
proof -
  have "\<exists>q. op_truediv S K = Inr q
      \<and> np_log q = np_log (np_divide (Fin (val S)) (Fin (val K)))"
  proof (cases "is_numpy S \<or> is_numpy K")
    case True
    then show ?thesis by (simp add: op_truediv_def)
  next
    case False
    with assms(1) have "val K \<noteq> 0" by simp
    with False show ?thesis by (simp add: op_truediv_def np_log_quotient)
  qed
  then obtain q where q: "op_truediv S K = Inr q"
      and l: "np_log q = np_log (np_divide (Fin (val S)) (Fin (val K)))"
    by blast
  have p: "op_pow sigma 2 = Inr ((val sigma)\<^sup>2)"
    using assms(2) by (auto simp: op_pow_def)
  show ?thesis
    unfolding black_scholes_def q p sum.case l Let_def
    by (simp add: call_ieee_def put_ieee_def d1_ieee_def d2_ieee_def)
qed

subsection \<open>Where the closed form is defined over the reals\<close>

lemma ieee_defined:
  assumes "formula_defined S K T sigma"
  shows "call_ieee S K T r sigma = Fin (call_formula S K T r sigma)"
    and "put_ieee S K T r sigma = Fin (put_formula S K T r sigma)"
proof -
  from assms have h: "K \<noteq> 0" "0 < S / K" "0 < T" "sigma \<noteq> 0"
    by (simp_all add: formula_defined_def)
  have q: "S / K \<noteq> 0" "\<not> S / K < 0" using h(2) by linarith+
  have S: "S \<noteq> 0" using q(1) by auto
  from q have l: "np_log (np_divide (Fin S) (Fin K)) = Fin (ln (S / K))"
    unfolding np_log_quotient [OF h(1)] by (simp del: divide_eq_0_iff)
  have v: "np_multiply (Fin sigma) (np_sqrt (Fin T)) = Fin (sigma * sqrt T)"
    using h(3,4) by (simp add: np_multiply_Fin)
  have nz: "sigma * sqrt T \<noteq> 0" using h(3,4) by simp
  define n where "n = ln (S / K) + (r + 0.5 * sigma\<^sup>2) * T"
  have d1: "d1_ieee S K T r sigma = np_divide (Fin n) (Fin (sigma * sqrt T))"
    unfolding d1_ieee_def l v np_add_Fin by (simp add: n_def)
  have f1: "d1_formula S K T r sigma = n / (sigma * sqrt T)"
    by (simp add: d1_formula_def n_def)
  have c1: "norm_cdf_np (d1_ieee S K T r sigma) = Fin (norm_cdf (d1_formula S K T r sigma))"
    unfolding d1 f1 by (rule cdf_quotient [OF nz])
  have c1': "norm_cdf_np (np_negative (d1_ieee S K T r sigma))
      = Fin (norm_cdf (- d1_formula S K T r sigma))"
    unfolding d1 f1 by (rule cdf_negative_quotient [OF nz])
  have d2: "d2_ieee S K T r sigma = Fin (d2_formula S K T r sigma)"
    unfolding d2_ieee_def d2_formula_def d1 f1 v by (rule quotient_minus [OF nz nz])
  have c2: "norm_cdf_np (d2_ieee S K T r sigma) = Fin (norm_cdf (d2_formula S K T r sigma))"
    by (simp add: d2)
  have c2': "norm_cdf_np (np_negative (d2_ieee S K T r sigma))
      = Fin (norm_cdf (- d2_formula S K T r sigma))"
    by (simp add: d2 norm_cdf_minus norm_cdf_zero)
  have k: "np_multiply (Fin K) (np_exp (Fin (- (r * T)))) = Fin (K * exp (- (r * T)))"
    using h(1) by (simp add: np_multiply_Fin)
  have pos: "norm_cdf x \<noteq> 0" for x using norm_cdf_pos [of x] by simp
  show "call_ieee S K T r sigma = Fin (call_formula S K T r sigma)"
    unfolding call_ieee_def c1 c2 k
    using S h(1) pos by (simp add: np_multiply_Fin np_subtract_Fin call_formula_def)
  show "put_ieee S K T r sigma = Fin (put_formula S K T r sigma)"
    unfolding put_ieee_def c1' c2' k
    using S h(1) pos by (simp add: np_multiply_Fin np_subtract_Fin put_formula_def)
qed

lemma black_scholes_defined:
  assumes "formula_defined (val S) (val K) (val T) (val sigma)"
  shows "black_scholes S K T r sigma option_type =
     (if option_type = ''call''
      then Inr (Fin (call_formula (val S) (val K) (val T) (val r) (val sigma)))
      else if option_type = ''put''
      then Inr (Fin (put_formula (val S) (val K) (val T) (val r) (val sigma)))
      else Inl ValueError)"
proof -
  from assms have "val K \<noteq> 0" "(val sigma)\<^sup>2 < float_overflow_threshold"
    by (simp_all add: formula_defined_def)
  then have "black_scholes S K T r sigma option_type =
     (if option_type = ''call''
      then Inr (call_ieee (val S) (val K) (val T) (val r) (val sigma))
      else if option_type = ''put''
      then Inr (put_ieee (val S) (val K) (val T) (val r) (val sigma))
      else Inl ValueError)"
    by (intro black_scholes_unraised) simp_all
  then show ?thesis by (simp only: ieee_defined [OF assms])
qed

subsection \<open>Degenerate inputs\<close>

text \<open>
  Where the closed form is not defined over the reals the special values decide. At
  expiry (\<open>T = 0\<close>) and at zero volatility \<open>d1\<close> and \<open>d2\<close> are infinite and the price is
  finite; at a zero spot price the logarithm is minus infinity and the call is worth
  nothing; at expiry and at the money \<open>d1\<close> is zero by zero and the price is NaN. With a
  numpy scalar for \<open>S\<close>, a zero strike gives an infinite quotient and a finite price.
\<close>

lemma at_expiry:
  "black_scholes (PyFloat 110) (PyFloat 100) (PyFloat 0) (PyFloat 0.05) (PyFloat 0.20) ''call''
     = Inr (Fin 10)"
  by (simp add: black_scholes_def op_truediv_def op_pow_def float_overflow_threshold_def
      power2_eq_square np_multiply_def np_divide_def np_add_def np_subtract_def
      is_zero_def is_inf_def zero_of_def inf_of_def)

lemma at_expiry_at_the_money:
  "black_scholes (PyFloat 100) (PyFloat 100) (PyFloat 0) (PyFloat 0.05) (PyFloat 0.20) ''call''
     = Inr NaN"
  by (simp add: black_scholes_def op_truediv_def op_pow_def float_overflow_threshold_def
      power2_eq_square np_multiply_def np_divide_def np_add_def np_subtract_def
      is_zero_def is_inf_def zero_of_def inf_of_def)

lemma zero_volatility:
  "black_scholes (PyFloat 110) (PyFloat 100) (PyFloat 1) (PyFloat 0.05) (PyFloat 0) ''call''
     = Inr (Fin (110 - 100 * exp (- (1 / 20))))"
proof -
  have "(0 :: real) < ln (11 / 10)" by simp
  then have "ln (11 / 10 :: real) + 1 / 20 \<noteq> 0" "\<not> ln (11 / 10 :: real) + 1 / 20 < 0"
    by linarith+
  then show ?thesis
    by (simp add: black_scholes_def op_truediv_def op_pow_def float_overflow_threshold_def
        np_multiply_def np_divide_def np_add_def np_subtract_def
        is_zero_def is_inf_def zero_of_def inf_of_def)
qed

lemma zero_spot:
  "black_scholes (PyFloat 0) (PyFloat 100) (PyFloat 1) (PyFloat 0.05) (PyFloat 0.20) ''call''
     = Inr (Fin 0)"
  by (simp add: black_scholes_def op_truediv_def op_pow_def float_overflow_threshold_def
      power2_eq_square np_multiply_def np_divide_def np_add_def np_subtract_def
      is_zero_def is_inf_def zero_of_def inf_of_def)

lemma numpy_zero_strike:
  "black_scholes (NpFloat 100) (PyFloat 0) (PyFloat 1) (PyFloat 0.05) (PyFloat 0.20) ''call''
     = Inr (Fin 100)"
  by (simp add: black_scholes_def op_truediv_def op_pow_def float_overflow_threshold_def
      power2_eq_square np_multiply_def np_divide_def np_add_def np_subtract_def
      is_zero_def is_inf_def zero_of_def inf_of_def)

subsection \<open>Properties of the closed form over the reals\<close>

text \<open>
  Facts about the closed form itself, as a function of real numbers: put-call parity, and
  the non-negativity of both values, which with parity gives the no-arbitrage lower bound
  of the call. The lower bound is an exact inequality between real numbers; the program
  evaluates both of its sides in binary64, where the rounding of a call deep in the money
  can place the computed price below the computed bound. It is therefore a property of
  the formula and is not stated of the program.
\<close>

lemma put_call_parity_formula:
  "call_formula S K T r sigma - put_formula S K T r sigma = S - K * exp (- (r * T))"
  by (simp add: call_formula_def put_formula_def norm_cdf_minus algebra_simps)

lemma vol_d1:
  assumes "0 < T" "sigma \<noteq> 0"
  shows "sigma * sqrt T * d1_formula S K T r sigma = ln (S / K) + r * T + (sigma * sqrt T)\<^sup>2 / 2"
proof -
  have nz: "sigma * sqrt T \<noteq> 0" using assms by simp
  have sq: "(sigma * sqrt T)\<^sup>2 = sigma\<^sup>2 * T" using assms by (simp add: power_mult_distrib)
  have "sigma * sqrt T * d1_formula S K T r sigma = ln (S / K) + (r + 0.5 * sigma\<^sup>2) * T"
    unfolding d1_formula_def using nz by simp
  also have "\<dots> = ln (S / K) + r * T + (sigma * sqrt T)\<^sup>2 / 2"
    unfolding sq by (simp add: algebra_simps)
  finally show ?thesis .
qed

lemma forward_ratio:
  fixes S K r T :: real
  assumes "0 < S" "0 < K"
  shows "exp (ln (S / K) + r * T) * (K * exp (- (r * T))) = S"
proof -
  have q: "0 < S / K" by (rule divide_pos_pos [OF assms])
  have "exp (ln (S / K) + r * T) = exp (ln (S / K)) * exp (r * T)"
    by (rule exp_add)
  also have "\<dots> = S / K * exp (r * T)"
    by (simp only: exp_ln [OF q])
  finally have "exp (ln (S / K) + r * T) * (K * exp (- (r * T))) = S / K * exp (r * T) * (K * inverse (exp (r * T)))"
    by (simp only: exp_minus)
  also have "\<dots> = S" using assms(2) by simp
  finally show ?thesis .
qed

lemma call_formula_nonneg:
  assumes "0 < S" "0 < K" "0 < T" "0 < sigma"
  shows "0 \<le> call_formula S K T r sigma"
proof -
  define a where "a = sigma * sqrt T"
  define d1 where "d1 = d1_formula S K T r sigma"
  define d2 where "d2 = d2_formula S K T r sigma"
  define D where "D = K * exp (- (r * T))"
  have a: "0 \<le> a" using assms by (simp add: a_def)
  have D: "0 < D" using assms by (simp add: D_def)
  have d12: "d1 = d2 + a" by (simp add: d1_def d2_def d2_formula_def a_def)
  have "a * d1 = ln (S / K) + r * T + a\<^sup>2 / 2"
    unfolding a_def d1_def using assms by (intro vol_d1) auto
  then have e: "a * d2 + a\<^sup>2 / 2 = ln (S / K) + r * T"
    by (simp add: d12 power2_eq_square algebra_simps)
  have "norm_cdf d2 \<le> exp (a * d2 + a\<^sup>2 / 2) * norm_cdf (d2 + a)"
    by (rule norm_cdf_shift [OF a])
  then have "norm_cdf d2 \<le> exp (ln (S / K) + r * T) * norm_cdf d1"
    by (simp only: e d12)
  then have "norm_cdf d2 * D \<le> exp (ln (S / K) + r * T) * norm_cdf d1 * D"
    using D by (intro mult_right_mono) auto
  also have "\<dots> = (exp (ln (S / K) + r * T) * D) * norm_cdf d1" by simp
  also have "\<dots> = S * norm_cdf d1"
    unfolding D_def by (simp only: forward_ratio [OF assms(1,2)])
  finally have "D * norm_cdf d2 \<le> S * norm_cdf d1" by (simp add: mult.commute)
  then show ?thesis by (simp add: call_formula_def d1_def d2_def D_def)
qed

lemma put_formula_nonneg:
  assumes "0 < S" "0 < K" "0 < T" "0 < sigma"
  shows "0 \<le> put_formula S K T r sigma"
proof -
  define a where "a = sigma * sqrt T"
  define d1 where "d1 = d1_formula S K T r sigma"
  define d2 where "d2 = d2_formula S K T r sigma"
  define D where "D = K * exp (- (r * T))"
  define F where "F = exp (ln (S / K) + r * T)"
  have a: "0 \<le> a" using assms by (simp add: a_def)
  have F: "0 < F" by (simp add: F_def)
  have d12: "- d2 = - d1 + a" by (simp add: d1_def d2_def d2_formula_def a_def)
  have "a * d1 = ln (S / K) + r * T + a\<^sup>2 / 2"
    unfolding a_def d1_def using assms by (intro vol_d1) auto
  then have e: "a * (- d1) + a\<^sup>2 / 2 = - (ln (S / K) + r * T)"
    by (simp add: algebra_simps)
  have "norm_cdf (- d1) \<le> exp (a * (- d1) + a\<^sup>2 / 2) * norm_cdf (- d1 + a)"
    by (rule norm_cdf_shift [OF a])
  then have "norm_cdf (- d1) \<le> exp (- (ln (S / K) + r * T)) * norm_cdf (- d2)"
    by (simp only: e d12)
  moreover have "exp (- (ln (S / K) + r * T)) = inverse F"
    unfolding F_def by (rule exp_minus)
  ultimately have "norm_cdf (- d1) \<le> inverse F * norm_cdf (- d2)"
    by (simp only:)
  then have "F * norm_cdf (- d1) \<le> F * (inverse F * norm_cdf (- d2))"
    using F by (intro mult_left_mono) auto
  also have "\<dots> = norm_cdf (- d2)" using F by simp
  finally have le: "F * norm_cdf (- d1) \<le> norm_cdf (- d2)" .
  have FD: "F * D = S"
    unfolding F_def D_def by (rule forward_ratio [OF assms(1,2)])
  have "S * norm_cdf (- d1) = (F * D) * norm_cdf (- d1)" by (simp only: FD)
  also have "\<dots> = (F * norm_cdf (- d1)) * D" by simp
  also have "\<dots> \<le> norm_cdf (- d2) * D"
    using le assms(2) by (intro mult_right_mono) (auto simp: D_def)
  finally have "S * norm_cdf (- d1) \<le> D * norm_cdf (- d2)" by (simp add: mult.commute)
  then show ?thesis by (simp add: put_formula_def d1_def d2_def D_def)
qed

lemma call_formula_lower_bound:
  assumes "0 < S" "0 < K" "0 < T" "0 < sigma"
  shows "max (S - K * exp (- (r * T))) 0 \<le> call_formula S K T r sigma"
proof -
  have "0 \<le> call_formula S K T r sigma"
    by (rule call_formula_nonneg [OF assms])
  moreover have "0 \<le> put_formula S K T r sigma"
    by (rule put_formula_nonneg [OF assms])
  then have "S - K * exp (- (r * T)) \<le> call_formula S K T r sigma"
    using put_call_parity_formula [of S K T r sigma] by simp
  ultimately show ?thesis by simp
qed

subsection \<open>The reference value\<close>

lemma reference_formula:
  "call_formula 100 100 1 (1 / 20) (1 / 5)
     = 50 - 50 * exp (- (1 / 20))
       + 50 * ((gauss_int (7 / 20) - exp (- (1 / 20)) * gauss_int (3 / 20)) / gauss_half_mass)"
proof -
  have d1: "d1_formula 100 100 1 (1 / 20) (1 / 5) = 7 / 20"
    by (simp add: d1_formula_def power2_eq_square)
  have d2: "d2_formula 100 100 1 (1 / 20) (1 / 5) = 3 / 20"
    by (simp add: d2_formula_def d1)
  have "call_formula 100 100 1 (1 / 20) (1 / 5)
      = 100 * norm_cdf (7 / 20) - 100 * exp (- (1 / 20)) * norm_cdf (3 / 20)"
    by (simp add: call_formula_def d1 d2)
  also have "\<dots> = 50 - 50 * exp (- (1 / 20))
       + 50 * ((gauss_int (7 / 20) - exp (- (1 / 20)) * gauss_int (3 / 20)) / gauss_half_mass)"
    by (simp add: norm_cdf_def algebra_simps diff_divide_distrib)
  finally show ?thesis .
qed

lemma reference_bounds:
  "104496 / 10000 \<le> call_formula 100 100 1 (1 / 20) (1 / 5)"
  "call_formula 100 100 1 (1 / 20) (1 / 5) \<le> 104516 / 10000"
proof -
  define L where "L = gauss_half_mass"
  define A where "A = gauss_int (7 / 20)"
  define B where "B = gauss_int (3 / 20)"
  define E where "E = exp (- (1 / 20) :: real)"
  define N where "N = A - E * B"
  have L: "125323 / 100000 \<le> L" "L \<le> 125333 / 100000"
    unfolding L_def by (rule gauss_half_mass_lower, rule gauss_half_mass_upper)
  have A: "3429835 / 10000000 \<le> A" "A \<le> 3429836 / 10000000"
    unfolding A_def by (rule gauss_int_35)+
  have B: "1494393 / 10000000 \<le> B" "B \<le> 1494394 / 10000000"
    unfolding B_def by (rule gauss_int_15)+
  have E: "9512291 / 10000000 \<le> E" "E \<le> 9512297 / 10000000"
    unfolding E_def by (rule exp_discount)+
  have "(9512291 / 10000000) * (1494393 / 10000000) \<le> E * B"
    using E(1) B(1) by (intro mult_mono) auto
  then have Nh: "N \<le> 3429836 / 10000000 - (9512291 / 10000000) * (1494393 / 10000000)"
    unfolding N_def using A(2) by linarith
  have "E * B \<le> (9512297 / 10000000) * (1494394 / 10000000)"
    using E B by (intro mult_mono) auto
  then have Nl: "3429835 / 10000000 - (9512297 / 10000000) * (1494394 / 10000000) \<le> N"
    unfolding N_def using A(1) by linarith
  have N0: "0 \<le> N" using Nl by simp
  have Lpos: "0 < L" using L(1) by simp
  define Q where "Q = N / L"
  have "Q \<le> (3429836 / 10000000 - (9512291 / 10000000) * (1494393 / 10000000)) / (125323 / 100000)"
    unfolding Q_def using Nh L(1) by (intro frac_le) auto
  also have "\<dots> \<le> 160252 / 1000000" by simp
  finally have up: "Q \<le> 160252 / 1000000" .
  have "160237 / 1000000 \<le> (3429835 / 10000000 - (9512297 / 10000000) * (1494394 / 10000000)) / (125333 / 100000 :: real)"
    by simp
  also have "\<dots> \<le> Q"
    unfolding Q_def using Nl N0 Lpos L(2) by (intro frac_le) auto
  finally have lo: "160237 / 1000000 \<le> Q" .
  have p: "call_formula 100 100 1 (1 / 20) (1 / 5) = 50 - 50 * E + 50 * Q"
    unfolding reference_formula Q_def N_def A_def B_def E_def L_def by (rule refl)
  show "104496 / 10000 \<le> call_formula 100 100 1 (1 / 20) (1 / 5)"
    unfolding p using lo E(2) by linarith
  show "call_formula 100 100 1 (1 / 20) (1 / 5) \<le> 104516 / 10000"
    unfolding p using up E(1) by linarith
qed

section \<open>The script, evaluated\<close>

lemma price_loop_defined:
  assumes "\<forall>s\<in>set ss. formula_defined s (val K) (val T) (val sigma)"
  shows "price_loop tr ss K T r sigma ''call'' =
     (Inr (map (\<lambda>s. Fin (call_formula s (val K) (val T) (val r) (val sigma))) ss),
      tr @ map (\<lambda>s. Call_black_scholes (NpFloat s) K T r sigma ''call'') ss)"
  using assms
proof (induction ss arbitrary: tr)
  case Nil
  show ?case by simp
next
  case (Cons s ss)
  then have s: "formula_defined (val (NpFloat s)) (val K) (val T) (val sigma)"
    and ss: "\<forall>x\<in>set ss. formula_defined x (val K) (val T) (val sigma)"
    by simp_all
  show ?case
    by (simp add: traced_black_scholes_def black_scholes_defined [OF s] Cons.IH [OF ss])
qed

lemma linspace_grid:
  "np_linspace 50 150 100 = map (\<lambda>i. 50 + real i * (100 / 99)) [0..<100]"
  by (simp add: np_linspace_def)

lemma linspace_defined: "\<forall>s\<in>set (np_linspace 50 150 100). formula_defined s 100 1 (1 / 5)"
proof
  fix s assume "s \<in> set (np_linspace 50 150 100)"
  then obtain i :: nat where "s = 50 + real i * (100 / 99)"
    unfolding linspace_grid by auto
  then have "0 < s" by (simp add: add_pos_nonneg)
  then show "formula_defined s 100 1 (1 / 5)"
    by (simp add: formula_defined_def float_overflow_threshold_def power2_eq_square)
qed

lemma run_script_defined:
  assumes "\<forall>s\<in>set S. formula_defined s (val K) (val T) (val sigma)"
  shows "run_script S K T r sigma ''call'' =
     (Inr \<lparr>spots = S,
           prices = map (\<lambda>s. Fin (call_formula s (val K) (val T) (val r) (val sigma))) S,
           payoffs = Array (map (\<lambda>s. max (s - val K) 0) S)\<rparr>,
      map (\<lambda>s. Call_black_scholes (NpFloat s) K T r sigma ''call'') S
        @ [Call_option_payoff (Array S) (val K) ''call'',
           Plot S (map (\<lambda>s. Fin (call_formula s (val K) (val T) (val r) (val sigma))) S),
           Plot S (map Fin (map (\<lambda>s. max (s - val K) 0) S))])"
  unfolding run_script_def price_loop_defined [OF assms]
  by (simp add: traced_option_payoff_def option_payoff_def)

lemma driver_script:
  "driver = run_script (np_linspace 50 150 100)
     (PyFloat 100) (PyFloat 1) (PyFloat (1 / 20)) (PyFloat (1 / 5)) ''call''"
  by (simp add: driver_def)

lemma driver_eq:
  "driver =
     (Inr \<lparr>spots = np_linspace 50 150 100,
           prices = map (\<lambda>s. Fin (call_formula s 100 1 (1 / 20) (1 / 5))) (np_linspace 50 150 100),
           payoffs = Array (map (\<lambda>s. max (s - 100) 0) (np_linspace 50 150 100))\<rparr>,
      map (\<lambda>s. Call_black_scholes (NpFloat s)
                 (PyFloat 100) (PyFloat 1) (PyFloat (1 / 20)) (PyFloat (1 / 5)) ''call'')
          (np_linspace 50 150 100)
        @ [Call_option_payoff (Array (np_linspace 50 150 100)) 100 ''call'',
           Plot (np_linspace 50 150 100)
             (map (\<lambda>s. Fin (call_formula s 100 1 (1 / 20) (1 / 5))) (np_linspace 50 150 100)),
           Plot (np_linspace 50 150 100)
             (map Fin (map (\<lambda>s. max (s - 100) 0) (np_linspace 50 150 100)))])"
proof -
  have d: "\<forall>s\<in>set (np_linspace 50 150 100).
      formula_defined s (val (PyFloat 100)) (val (PyFloat 1)) (val (PyFloat (1 / 5)))"
    using linspace_defined by simp
  show ?thesis
    unfolding driver_script using run_script_defined [OF d, of "PyFloat (1 / 20)"] by simp
qed

lemma pricer_on_grid:
  "map (\<lambda>s. black_scholes (NpFloat s)
               (PyFloat 100) (PyFloat 1) (PyFloat (1 / 20)) (PyFloat (1 / 5)) ''call'')
       (np_linspace 50 150 100)
     = map Inr (map (\<lambda>s. Fin (call_formula s 100 1 (1 / 20) (1 / 5))) (np_linspace 50 150 100))"
  using linspace_defined by (simp add: black_scholes_defined)

lemma length_linspace: "length (np_linspace start stop n) = n"
  by (simp add: np_linspace_def)

section \<open>The claims\<close>




text \<open>
  Claim C2. For a vector of spot prices and a scalar strike, \<^verbatim>\<open>option_payoff\<close> returns
  element by element \<open>max (S - K) 0\<close> for a call and \<open>max (K - S) 0\<close> for a put, and the
  same on a single number; it is a function of its arguments only. In particular the
  payoff of a call at 120 and at 80 with strike 100 is 20 and 0, and the payoff of a put at
  80 with strike 100 is 20.
\<close>

theorem option_payoff_elementwise:
  "option_payoff (Array xs) K ''call'' = Inr (Array (map (\<lambda>s. max (s - K) 0) xs))
   \<and> option_payoff (Array xs) K ''put'' = Inr (Array (map (\<lambda>s. max (K - s) 0) xs))
   \<and> option_payoff (Scalar s) K ''call'' = Inr (Scalar (max (s - K) 0))
   \<and> option_payoff (Scalar s) K ''put'' = Inr (Scalar (max (K - s) 0))
   \<and> option_payoff (Scalar 120) 100 ''call'' = Inr (Scalar 20)
   \<and> option_payoff (Scalar 80) 100 ''call'' = Inr (Scalar 0)
   \<and> option_payoff (Scalar 80) 100 ''put'' = Inr (Scalar 20)"
  by (simp add: option_payoff_def)

text \<open>
  Claim C3, as stated: each function raises \<^verbatim>\<open>ValueError\<close> exactly when the option type is
  neither \<^verbatim>\<open>"call"\<close> nor \<^verbatim>\<open>"put"\<close>, and never raises for these two types, for any numeric
  inputs. Called with Python floats and a zero strike, the pricer raises for a call: the
  division \<^verbatim>\<open>S / K\<close> comes first.
\<close>

theorem black_scholes_zero_strike_raises:
  "black_scholes (PyFloat 100) (PyFloat 0) (PyFloat 1) (PyFloat 0.05) (PyFloat 0.20) ''call''
     = Inl ZeroDivisionError"
  by (simp add: black_scholes_def op_truediv_def)

text \<open>
  Claim C3, amended. \<^verbatim>\<open>option_payoff\<close> raises exactly when the option type is neither
  \<^verbatim>\<open>"call"\<close> nor \<^verbatim>\<open>"put"\<close>, and then \<^verbatim>\<open>ValueError\<close>. \<^verbatim>\<open>black_scholes\<close> raises
  \<^verbatim>\<open>ValueError\<close> exactly when the option type is neither \<^verbatim>\<open>"call"\<close> nor \<^verbatim>\<open>"put"\<close>,
  unless one of its first two operations has raised before: \<^verbatim>\<open>S / K\<close> raises
  \<^verbatim>\<open>ZeroDivisionError\<close> when \<open>S\<close> and \<open>K\<close> are both Python numbers and \<open>K\<close> is zero, and
  \<^verbatim>\<open>sigma ** 2\<close> raises \<^verbatim>\<open>OverflowError\<close> when \<open>sigma\<close> is a Python float whose square is
  out of the range of the floats; numpy scalars in these places do not raise. It raises
  in no other case.
\<close>

theorem raises_exactly:
  "(black_scholes S K T r sigma option_type = Inl e \<longleftrightarrow>
      (if \<not> is_numpy S \<and> \<not> is_numpy K \<and> val K = 0 then e = ZeroDivisionError
       else if \<not> is_numpy sigma \<and> float_overflow_threshold \<le> (val sigma)\<^sup>2
         then e = OverflowError
       else e = ValueError \<and> option_type \<noteq> ''call'' \<and> option_type \<noteq> ''put''))
   \<and> (option_payoff V K' option_type = Inl e \<longleftrightarrow>
      e = ValueError \<and> option_type \<noteq> ''call'' \<and> option_type \<noteq> ''put'')"
  by (auto simp: black_scholes_def op_truediv_def op_pow_def option_payoff_def Let_def)

theorem raises_exactly_witness:
  "black_scholes (PyFloat 100) (PyFloat 100) (PyFloat 1) (PyFloat 0.05) (PyFloat 0.20) ''straddle''
     = Inl ValueError
   \<and> black_scholes (NpFloat 100) (PyFloat 0) (PyFloat 1) (PyFloat 0.05) (NpFloat (2 ^ 600)) ''straddle''
     = Inl ValueError
   \<and> (\<forall>e. black_scholes (NpFloat 100) (PyFloat 0) (PyFloat 1) (PyFloat 0.05) (PyFloat 0.20) ''call''
          \<noteq> Inl e)
   \<and> option_payoff (Scalar 80) 100 ''straddle'' = Inl ValueError"
  using
    raises_exactly [of "PyFloat 100" "PyFloat 100" "PyFloat 1" "PyFloat 0.05" "PyFloat 0.20"
      "''straddle''" ValueError "Scalar 80" 100]
    raises_exactly [of "NpFloat 100" "PyFloat 0" "PyFloat 1" "PyFloat 0.05" "NpFloat (2 ^ 600)"
      "''straddle''" ValueError]
    raises_exactly [of "NpFloat 100" "PyFloat 0" "PyFloat 1" "PyFloat 0.05" "PyFloat 0.20"
      "''call''"]
  by (simp add: float_overflow_threshold_def power2_eq_square)

text \<open>
  Claim C4. Put-call parity: on every input where the formula is defined, whatever the
  kinds of the arguments, the call price minus the put price returned by
  \<^verbatim>\<open>black_scholes\<close> is \<open>S - K * exp (- r T)\<close>.
\<close>

theorem put_call_parity:
  assumes "formula_defined (val S) (val K) (val T) (val sigma)"
  shows "\<exists>c p. black_scholes S K T r sigma ''call'' = Inr (Fin c)
           \<and> black_scholes S K T r sigma ''put'' = Inr (Fin p)
           \<and> c - p = val S - val K * exp (- (val r * val T))"
  using put_call_parity_formula [of "val S" "val K" "val T" "val r" "val sigma"]
  by (simp add: black_scholes_defined [OF assms])

theorem put_call_parity_witness:
  "formula_defined 100 100 1 0.20
   \<and> (\<exists>c p. black_scholes (PyFloat 100) (PyFloat 100) (PyFloat 1) (PyFloat 0.05) (PyFloat 0.20)
               ''call'' = Inr (Fin c)
           \<and> black_scholes (PyFloat 100) (PyFloat 100) (PyFloat 1) (PyFloat 0.05) (PyFloat 0.20)
               ''put'' = Inr (Fin p)
           \<and> c - p = 100 - 100 * exp (- (0.05 * 1)))"
proof -
  have h: "formula_defined 100 100 1 0.20"
    by (simp add: formula_defined_def float_overflow_threshold_def power2_eq_square)
  then have h': "formula_defined (val (PyFloat 100)) (val (PyFloat 100)) (val (PyFloat 1))
      (val (PyFloat 0.20))"
    by simp
  show ?thesis using h put_call_parity [OF h', of "PyFloat 0.05"] by simp
qed

text \<open>
  Claim C5. The script builds 100 evenly spaced spot prices from 50 to 150, fixes
  \<open>K = 100\<close>, \<open>T = 1.0\<close>, \<open>r = 0.05\<close>, \<open>sigma = 0.20\<close> and the option type \<^verbatim>\<open>"call"\<close>, calls
  \<^verbatim>\<open>black_scholes\<close> once for each spot price, in order, to get the price curve, and calls
  \<^verbatim>\<open>option_payoff\<close> exactly once, on the whole vector, to get the payoff curve.
\<close>

theorem driver_run:
  "\<exists>ps pay tr.
     driver = (Inr \<lparr>spots = np_linspace 50 150 100, prices = ps, payoffs = pay\<rparr>, tr)
     \<and> np_linspace 50 150 100 = map (\<lambda>i. 50 + real i * (100 / 99)) [0..<100]
     \<and> length (np_linspace 50 150 100) = 100
     \<and> np_linspace 50 150 100 ! 0 = 50
     \<and> np_linspace 50 150 100 ! 99 = 150
     \<and> map (\<lambda>s. black_scholes (NpFloat s)
                   (PyFloat 100) (PyFloat 1.0) (PyFloat 0.05) (PyFloat 0.20) ''call'')
           (np_linspace 50 150 100) = map Inr ps
     \<and> option_payoff (Array (np_linspace 50 150 100)) 100 ''call'' = Inr pay
     \<and> filter is_pricer_call tr
          = map (\<lambda>s. Call_black_scholes (NpFloat s)
                        (PyFloat 100) (PyFloat 1.0) (PyFloat 0.05) (PyFloat 0.20) ''call'')
                (np_linspace 50 150 100)
     \<and> length (filter is_pricer_call tr) = 100
     \<and> filter is_payoff_call tr = [Call_option_payoff (Array (np_linspace 50 150 100)) 100 ''call'']"
proof -
  let ?S = "np_linspace 50 150 100"
  let ?ps = "map (\<lambda>s. Fin (call_formula s 100 1 (1 / 20) (1 / 5))) ?S"
  let ?pay = "Array (map (\<lambda>s. max (s - 100) 0) ?S)"
  let ?calls = "map (\<lambda>s. Call_black_scholes (NpFloat s)
      (PyFloat 100) (PyFloat 1) (PyFloat (1 / 20)) (PyFloat (1 / 5)) ''call'') ?S"
  let ?tr = "?calls @ [Call_option_payoff (Array ?S) 100 ''call'', Plot ?S ?ps,
      Plot ?S (map Fin (map (\<lambda>s. max (s - 100) 0) ?S))]"
  have d: "driver = (Inr \<lparr>spots = ?S, prices = ?ps, payoffs = ?pay\<rparr>, ?tr)"
    by (rule driver_eq)
  have g: "?S = map (\<lambda>i. 50 + real i * (100 / 99)) [0..<100]" by (rule linspace_grid)
  have l: "length ?S = 100" by (rule length_linspace)
  have e0: "?S ! 0 = 50" unfolding g by (simp del: upt_Suc)
  have e99: "?S ! 99 = 150" unfolding g by (simp del: upt_Suc)
  have p: "map (\<lambda>s. black_scholes (NpFloat s)
      (PyFloat 100) (PyFloat 1.0) (PyFloat 0.05) (PyFloat 0.20) ''call'') ?S = map Inr ?ps"
    using pricer_on_grid by simp
  have o: "option_payoff (Array ?S) 100 ''call'' = Inr ?pay"
    by (simp add: option_payoff_def)
  have c: "filter is_pricer_call ?calls = ?calls"
    by (simp add: filter_map comp_def)
  have f1: "filter is_pricer_call ?tr = map (\<lambda>s. Call_black_scholes (NpFloat s)
      (PyFloat 100) (PyFloat 1.0) (PyFloat 0.05) (PyFloat 0.20) ''call'') ?S"
    using c by simp
  have f2: "length (filter is_pricer_call ?tr) = 100"
    unfolding f1 by (simp add: l)
  have n: "filter is_payoff_call ?calls = []"
    by (simp add: filter_map comp_def)
  have f3: "filter is_payoff_call ?tr = [Call_option_payoff (Array ?S) 100 ''call'']"
    using n by simp
  from d g l e0 e99 p o f1 f2 f3 show ?thesis by blast
qed

text \<open>
  Claim C7. The price curve and the payoff curve of the script are indexed by the same
  ordered sequence of 100 spot prices: both have the length of that sequence, the price at
  each position is the pricer's result at the spot price at that position, the payoff at
  each position is the payoff at that same spot price, and both curves are plotted
  against that sequence.
\<close>

theorem curves_share_axis:
  "\<exists>S ps pay tr.
     driver = (Inr \<lparr>spots = S, prices = ps, payoffs = Array pay\<rparr>, tr)
     \<and> length S = 100 \<and> length ps = length S \<and> length pay = length S
     \<and> map (\<lambda>s. black_scholes (NpFloat s)
                   (PyFloat 100) (PyFloat 1.0) (PyFloat 0.05) (PyFloat 0.20) ''call'') S
          = map Inr ps
     \<and> pay = map (\<lambda>s. max (s - 100) 0) S
     \<and> filter is_plot tr = [Plot S ps, Plot S (map Fin pay)]"
proof -
  let ?S = "np_linspace 50 150 100"
  let ?ps = "map (\<lambda>s. Fin (call_formula s 100 1 (1 / 20) (1 / 5))) ?S"
  let ?pay = "map (\<lambda>s. max (s - 100) 0) ?S"
  let ?calls = "map (\<lambda>s. Call_black_scholes (NpFloat s)
      (PyFloat 100) (PyFloat 1) (PyFloat (1 / 20)) (PyFloat (1 / 5)) ''call'') ?S"
  let ?tr = "?calls @ [Call_option_payoff (Array ?S) 100 ''call'', Plot ?S ?ps,
      Plot ?S (map Fin ?pay)]"
  have d: "driver = (Inr \<lparr>spots = ?S, prices = ?ps, payoffs = Array ?pay\<rparr>, ?tr)"
    by (rule driver_eq)
  have l: "length ?S = 100" by (rule length_linspace)
  have l2: "length ?ps = length ?S" "length ?pay = length ?S" by simp_all
  have p: "map (\<lambda>s. black_scholes (NpFloat s)
      (PyFloat 100) (PyFloat 1.0) (PyFloat 0.05) (PyFloat 0.20) ''call'') ?S = map Inr ?ps"
    using pricer_on_grid by simp
  have n: "filter is_plot ?calls = []"
    by (simp add: filter_map comp_def)
  have f: "filter is_plot ?tr = [Plot ?S ?ps, Plot ?S (map Fin ?pay)]"
    using n by simp
  from d l l2 p f show ?thesis by blast
qed

text \<open>
  Claim C8. \<^verbatim>\<open>black_scholes(100, 100, 1, 0.05, 0.20, "call")\<close> is within 0.001 of the
  reference value 10.4506.
\<close>

theorem reference_price:
  "\<exists>p. black_scholes (PyFloat 100) (PyFloat 100) (PyFloat 1) (PyFloat 0.05) (PyFloat 0.20) ''call''
          = Inr (Fin p)
       \<and> \<bar>p - 10.4506\<bar> \<le> 1 / 1000"
proof -
  have h: "formula_defined (val (PyFloat 100)) (val (PyFloat 100)) (val (PyFloat 1))
      (val (PyFloat (1 / 5)))"
    by (simp add: formula_defined_def float_overflow_threshold_def power2_eq_square)
  have "black_scholes (PyFloat 100) (PyFloat 100) (PyFloat 1) (PyFloat (1 / 20)) (PyFloat (1 / 5))
      ''call'' = Inr (Fin (call_formula 100 100 1 (1 / 20) (1 / 5)))"
    using black_scholes_defined [OF h, of "PyFloat (1 / 20)" "''call''"] by simp
  then have "black_scholes (PyFloat 100) (PyFloat 100) (PyFloat 1) (PyFloat 0.05) (PyFloat 0.20)
      ''call'' = Inr (Fin (call_formula 100 100 1 (1 / 20) (1 / 5)))"
    by simp
  moreover have "\<bar>call_formula 100 100 1 (1 / 20) (1 / 5) - 104506 / 10000\<bar> \<le> 1 / 1000"
    using reference_bounds by linarith
  then have "\<bar>call_formula 100 100 1 (1 / 20) (1 / 5) - 10.4506\<bar> \<le> 1 / 1000"
    by simp
  ultimately show ?thesis by blast
qed

text \<open>
  Claim C9. Every element of a payoff returned by \<^verbatim>\<open>option_payoff\<close> is non-negative.
\<close>

theorem option_payoff_nonneg:
  assumes "option_payoff S K option_type = Inr P" and "p \<in> set (elements P)"
  shows "0 \<le> p"
proof (cases S)
  case (Scalar s)
  with assms show ?thesis by (auto simp: option_payoff_def split: if_splits)
next
  case (Array xs)
  with assms show ?thesis by (auto simp: option_payoff_def split: if_splits)
qed

theorem option_payoff_nonneg_witness:
  "option_payoff (Array [80, 120]) 100 ''call'' = Inr (Array [0, 20])
   \<and> 20 \<in> set (elements (Array [0, 20])) \<and> (0 :: real) \<le> 20"
proof -
  have r: "option_payoff (Array [80, 120]) 100 ''call'' = Inr (Array [0, 20])"
    by (simp add: option_payoff_def)
  have m: "(20 :: real) \<in> set (elements (Array [0, 20]))" by simp
  from r m option_payoff_nonneg [OF r m] show ?thesis by blast
qed

text \<open>
  Claim C10. When the \<^verbatim>\<open>option_type\<close> argument is omitted, both functions behave as
  with \<^verbatim>\<open>"call"\<close>; when it is given, it is used.
\<close>

theorem default_option_type:
  "black_scholes_args S K T r sigma None = black_scholes S K T r sigma ''call''
   \<and> option_payoff_args V K' None = option_payoff V K' ''call''
   \<and> black_scholes_args S K T r sigma (Some t) = black_scholes S K T r sigma t
   \<and> option_payoff_args V K' (Some t) = option_payoff V K' t"
  by (simp add: black_scholes_args_def option_payoff_args_def)

end
